theory Spec2Isabelle
  imports Main
begin

section \<open>Strings\<close>

text \<open>
  Python strings are modelled as \<^typ>\<open>string\<close>. The helpers below are the string
  operations the modelled code uses: \<^verbatim>\<open>sep.join(parts)\<close>, \<^verbatim>\<open>s.startswith(p)\<close>,
  the substring test \<^verbatim>\<open>needle in hay\<close>, \<^verbatim>\<open>str(n)\<close> of an integer inside an f-string,
  \<^verbatim>\<open>s.lower()\<close> and \<^verbatim>\<open>s.strip()\<close>. A character of a \<^typ>\<open>string\<close> stands for the
  Python character with the same code point, \<open>U+0000\<close> to \<open>U+00FF\<close>: \<open>CHR 0xA0\<close> is the
  no-break space. So \<open>length\<close> is Python's \<^verbatim>\<open>len\<close>, and whitespace, line boundaries and
  lower case are Python's on these code points. Text with a code point above \<open>U+00FF\<close>
  has no counterpart in this type.
\<close>

definition nl :: string where
  "nl = [CHR 0x0A]"

text \<open>The single quote, for the quoted fields of the f-strings.\<close>

definition sq :: string where
  "sq = [CHR 0x27]"

fun join :: "string \<Rightarrow> string list \<Rightarrow> string" where
  "join sep [] = []"
| "join sep [x] = x"
| "join sep (x # y # ys) = x @ sep @ join sep (y # ys)"

fun startswith :: "string \<Rightarrow> string \<Rightarrow> bool" where
  "startswith [] s = True"
| "startswith (p # ps) [] = False"
| "startswith (p # ps) (c # cs) = (p = c \<and> startswith ps cs)"

text \<open>\<^verbatim>\<open>needle in hay\<close>: the needle occurs at some position of the hay.\<close>

fun contains :: "string \<Rightarrow> string \<Rightarrow> bool" where
  "contains needle [] = (needle = [])"
| "contains needle (c # cs) = (startswith needle (c # cs) \<or> contains needle cs)"

definition digit_char :: "nat \<Rightarrow> char" where
  "digit_char d = ''0123456789'' ! d"

function str_nat :: "nat \<Rightarrow> string" where
  "str_nat n = (if n < 10 then [digit_char n] else str_nat (n div 10) @ [digit_char (n mod 10)])"
  by pat_completeness auto
termination
  by (relation "measure id") auto

definition str_int :: "int \<Rightarrow> string" where
  "str_int i = (if i < 0 then ''-'' @ str_nat (nat (- i)) else str_nat (nat i))"

section \<open>Context budget manager (core/context\_compactor.py)\<close>

subsection \<open>Data\<close>

text \<open>The dataclass \<^verbatim>\<open>ContextEntry\<close>, with its defaults written out where an entry is built.\<close>

record ContextEntry =
  type :: string
  user_prompt :: string
  llm_response :: string
  timestamp :: string
  original_user_prompt :: string
  is_plan :: bool
  is_original_request :: bool
  compaction_level :: int

text \<open>
  The two collaborators of the compactor. \<^verbatim>\<open>payload_builder.prepare_payload(phase, prompt)\<close>
  returns the payload text or \<^verbatim>\<open>None\<close>; \<^verbatim>\<open>llm_client.send_request(payload)\<close> returns the
  response text or \<^verbatim>\<open>None\<close>. The code tests both results with \<^verbatim>\<open>not\<close>, so \<^verbatim>\<open>None\<close> and
  the empty string both count as failure.
\<close>

record collaborators =
  prepare_payload :: "string \<Rightarrow> string \<Rightarrow> string option"
  send_request :: "string \<Rightarrow> string option"

definition falsy :: "string option \<Rightarrow> bool" where
  "falsy r = (case r of None \<Rightarrow> True | Some s \<Rightarrow> s = [])"

subsection \<open>Prompt templates\<close>

text \<open>
  Each template is split at its single \<^verbatim>\<open>{context}\<close> field, so that
  \<^verbatim>\<open>template.format(context=c)\<close> is head, then \<open>c\<close>, then tail.
\<close>

definition compact_prompt_head :: string where
  "compact_prompt_head = join nl
    ['''',
     ''        You are a context compactor. Summarize the following conversation history into a more concise form while preserving:'',
     ''        - Key decisions and outcomes'',
     ''        - Important context for future actions'',
     ''        - The flow of the conversation'',
     ''        - Any error messages or important results'',
     ''        '',
     ''        Make it about 50% of the original length.'',
     ''        '',
     ''        Context to compact:'',
     ''        '']"

definition compact_prompt_tail :: string where
  "compact_prompt_tail = join nl
    ['''',
     ''        '',
     ''        Provide a compact summary:'',
     ''        '']"

definition very_compact_prompt_head :: string where
  "very_compact_prompt_head = join nl
    ['''',
     ''        You are a context compactor. Create a very brief summary of the following context, preserving only:'',
     ''        - Essential outcomes and decisions'',
     ''        - Critical context needed for task completion'',
     ''        - Major errors or successes'',
     ''        '',
     ''        Make it about 25% of the original length.'',
     ''        '',
     ''        Context to compact:'',
     ''        '']"

definition very_compact_prompt_tail :: string where
  "very_compact_prompt_tail = join nl
    ['''',
     ''        '',
     ''        Provide a very compact summary:'',
     ''        '']"

definition summary_prompt_head :: string where
  "summary_prompt_head = join nl
    ['''',
     ''        You are a context summarizer. Create a single detailed paragraph that summarizes the following historical conversation context. Focus on:'',
     ''        - Key decisions and outcomes that were reached'',
     ''        - Important context that may be relevant for future actions'',
     ''        - Any significant errors or successes'',
     ''        - The general flow and progression of the conversation'',
     ''        '',
     ''        Write this as ONE cohesive paragraph that captures the essential information from this historical context.'',
     ''        '',
     ''        Historical context to summarize:'',
     ''        '']"

definition summary_prompt_tail :: string where
  "summary_prompt_tail = join nl
    ['''',
     ''        '',
     ''        Summary paragraph:'',
     ''        '']"

definition compact_prompt_format :: "string \<Rightarrow> string" where
  "compact_prompt_format context = compact_prompt_head @ context @ compact_prompt_tail"

definition very_compact_prompt_format :: "string \<Rightarrow> string" where
  "very_compact_prompt_format context =
     very_compact_prompt_head @ context @ very_compact_prompt_tail"

definition summary_prompt_format :: "string \<Rightarrow> string" where
  "summary_prompt_format context = summary_prompt_head @ context @ summary_prompt_tail"

subsection \<open>Size estimate and threshold\<close>

definition estimate_token_count :: "string \<Rightarrow> nat" where
  "estimate_token_count text = length text div 4"

definition total_tokens :: "ContextEntry list \<Rightarrow> nat" where
  "total_tokens context_entries =
     sum_list (map (\<lambda>entry. estimate_token_count (user_prompt entry @ llm_response entry))
       context_entries)"

text \<open>
  \<^verbatim>\<open>int(max_context_tokens * 0.75)\<close>: the product with the constant threshold 0.75 is exact
  in floating point for every integer budget below \<open>2^51\<close> in absolute value, and
  \<^verbatim>\<open>int\<close> truncates towards zero.
\<close>

definition threshold_tokens :: "int \<Rightarrow> int" where
  "threshold_tokens max_context_tokens =
     (if 0 \<le> max_context_tokens then (3 * max_context_tokens) div 4
      else - ((3 * (- max_context_tokens)) div 4))"

definition should_compact_context :: "int \<Rightarrow> ContextEntry list \<Rightarrow> bool" where
  "should_compact_context max_context_tokens context_entries =
     (int (total_tokens context_entries) > threshold_tokens max_context_tokens)"

subsection \<open>Summaries\<close>

definition context_parts :: "ContextEntry list \<Rightarrow> string list" where
  "context_parts entries =
     concat (map (\<lambda>entry. [''User: '' @ user_prompt entry,
                             ''Assistant: '' @ llm_response entry]) entries)"

definition context_text :: "ContextEntry list \<Rightarrow> string" where
  "context_text entries = join nl (context_parts entries)"

definition create_context_summary :: "collaborators \<Rightarrow> ContextEntry list \<Rightarrow> string" where
  "create_context_summary c entries =
     (if entries = [] then ''''
      else
        let prompt = summary_prompt_format (context_text entries);
            payload = prepare_payload c ''simple'' prompt
        in if falsy payload
           then ''[Summary of '' @ str_nat (length entries) @
                '' historical entries - LLM unavailable]''
           else
             let response = send_request c (the payload)
             in if falsy response
                then ''[Summary of '' @ str_nat (length entries) @
                     '' historical entries - LLM failed]''
                else the response)"

definition compact_context_segment ::
    "collaborators \<Rightarrow> ContextEntry list \<Rightarrow> int \<Rightarrow> string" where
  "compact_context_segment c entries level =
     (if entries = [] then ''''
      else
        let prompt = (if level = 1 then compact_prompt_format (context_text entries)
                      else very_compact_prompt_format (context_text entries));
            payload = prepare_payload c ''simple'' prompt
        in if falsy payload then context_text entries
           else
             let response = send_request c (the payload)
             in if falsy response then context_text entries else the response)"

subsection \<open>The compaction pass\<close>

text \<open>
  The two searches walk \<^verbatim>\<open>reversed(list(enumerate(context_entries)))\<close> and stop at the
  first hit; \<open>-1\<close> stands for no hit, as in the source.
\<close>

fun find_first_index :: "('a \<Rightarrow> bool) \<Rightarrow> (nat \<times> 'a) list \<Rightarrow> int" where
  "find_first_index P [] = - 1"
| "find_first_index P ((i, entry) # rest) =
     (if P entry then int i else find_first_index P rest)"

definition latest_plan_index :: "ContextEntry list \<Rightarrow> int" where
  "latest_plan_index context_entries =
     find_first_index is_plan (rev (enumerate 0 context_entries))"

text \<open>
  \<^verbatim>\<open>current_user_prompt\<close> defaults to \<^verbatim>\<open>None\<close>; the guard \<^verbatim>\<open>if current_user_prompt\<close>
  skips the search for \<^verbatim>\<open>None\<close> and for the empty string.
\<close>

definition prompt_given :: "string option \<Rightarrow> bool" where
  "prompt_given current_user_prompt = (\<not> falsy current_user_prompt)"

definition current_prompt_index :: "string option \<Rightarrow> ContextEntry list \<Rightarrow> int" where
  "current_prompt_index current_user_prompt context_entries =
     (if prompt_given current_user_prompt
      then find_first_index (\<lambda>entry. contains (the current_user_prompt) (user_prompt entry))
             (rev (enumerate 0 context_entries))
      else - 1)"

definition compactable_indices :: "string option \<Rightarrow> ContextEntry list \<Rightarrow> nat list" where
  "compactable_indices current_user_prompt context_entries =
     filter (\<lambda>i. int i \<noteq> latest_plan_index context_entries \<and>
                  int i \<noteq> current_prompt_index current_user_prompt context_entries)
       [0..<length context_entries]"

definition indices_to_compact :: "string option \<Rightarrow> ContextEntry list \<Rightarrow> nat list" where
  "indices_to_compact current_user_prompt context_entries =
     (let compactable = compactable_indices current_user_prompt context_entries;
          num_to_compact = length compactable div 2
      in take num_to_compact compactable)"

definition summary_entry :: "string \<Rightarrow> ContextEntry list \<Rightarrow> ContextEntry" where
  "summary_entry summary_text entries_to_summarize =
     \<lparr>type = ''compacted'',
      user_prompt = ''[HISTORICAL CONTEXT SUMMARY]'',
      llm_response = summary_text,
      timestamp = timestamp (hd entries_to_summarize),
      original_user_prompt = '''',
      is_plan = False,
      is_original_request = False,
      compaction_level = 1\<rparr>"

definition current_prompt_entry :: "string \<Rightarrow> ContextEntry" where
  "current_prompt_entry current_user_prompt =
     \<lparr>type = ''current_prompt'',
      user_prompt = current_user_prompt,
      llm_response = ''[CURRENT TASK]'',
      timestamp = '''',
      original_user_prompt = '''',
      is_plan = False,
      is_original_request = False,
      compaction_level = 0\<rparr>"

text \<open>
  The rebuild loop over \<^verbatim>\<open>enumerate(context_entries)\<close>; the flag is
  \<^verbatim>\<open>summary_inserted\<close>.
\<close>

fun rebuild :: "nat list \<Rightarrow> ContextEntry \<Rightarrow> bool \<Rightarrow> (nat \<times> ContextEntry) list
    \<Rightarrow> ContextEntry list" where
  "rebuild to_compact summ summary_inserted [] = []"
| "rebuild to_compact summ summary_inserted ((i, entry) # rest) =
     (if i \<in> set to_compact
      then (if \<not> summary_inserted then summ # rebuild to_compact summ True rest
            else rebuild to_compact summ summary_inserted rest)
      else entry # rebuild to_compact summ summary_inserted rest)"

definition compact_context ::
    "collaborators \<Rightarrow> int \<Rightarrow> ContextEntry list \<Rightarrow> string option \<Rightarrow> ContextEntry list" where
  "compact_context c max_context_tokens context_entries current_user_prompt =
     (if \<not> should_compact_context max_context_tokens context_entries then context_entries
      else if length (compactable_indices current_user_prompt context_entries) < 2
      then context_entries
      else
        let to_compact = indices_to_compact current_user_prompt context_entries
        in if to_compact = [] then context_entries
           else
             let entries_to_summarize = map (\<lambda>i. context_entries ! i) to_compact;
                 summary_text = create_context_summary c entries_to_summarize;
                 summ = summary_entry summary_text entries_to_summarize;
                 result_entries = rebuild to_compact summ False (enumerate 0 context_entries)
             in if prompt_given current_user_prompt \<and>
                   current_prompt_index current_user_prompt context_entries = - 1
                then result_entries @ [current_prompt_entry (the current_user_prompt)]
                else result_entries)"


subsection \<open>The durable session store\<close>

text \<open>
  \<^verbatim>\<open>context.json\<close> maps a session key (the hash of the working directory) to a list of
  JSON objects. The model keeps the keys that \<^verbatim>\<open>parse_context_entries\<close> reads and
  \<^verbatim>\<open>save_compacted_context\<close> writes; each is optional, since the code reads them with
  \<^verbatim>\<open>entry.get\<close> and \<^verbatim>\<open>in\<close>. Text values are strings. The value under
  \<^verbatim>\<open>llm_full_response\<close> is either an object with text values or some other JSON value,
  kept as the text \<^verbatim>\<open>str\<close> gives for it.
\<close>

datatype full_response = ResponseDict "(string \<times> string) list" | ResponseText string

record stored_entry =
  json_type :: "string option"
  json_user_prompt :: "string option"
  json_llm_full_response :: "full_response option"
  json_llm_error_message :: "string option"
  json_timestamp :: "string option"
  json_compaction_level :: "int option"

type_synonym context_data = "string \<rightharpoonup> stored_entry list"

text \<open>
  \<^verbatim>\<open>str.lower()\<close> on the code points below 256: the letters \<open>A\<close> to \<open>Z\<close>, and the
  accented capitals \<open>U+00C0\<close> to \<open>U+00DE\<close> except the multiplication sign \<open>U+00D7\<close>,
  move up by 32; every other character stays.
\<close>

definition lower_char :: "char \<Rightarrow> char" where
  "lower_char ch =
     (let n = (of_char ch :: nat)
      in if (65 \<le> n \<and> n \<le> 90) \<or> (192 \<le> n \<and> n \<le> 214) \<or> (216 \<le> n \<and> n \<le> 222)
         then char_of (n + 32) else ch)"

definition lower :: "string \<Rightarrow> string" where
  "lower s = map lower_char s"

definition get_or :: "'a option \<Rightarrow> 'a \<Rightarrow> 'a" where
  "get_or v fallback = (case v of None \<Rightarrow> fallback | Some x \<Rightarrow> x)"

text \<open>
  \<^verbatim>\<open>response.get("response") or response.get("content") or response.get("text") or
  str(response)\<close>: the first of the three values that is present and not empty, else the
  rendering of the whole object, which is a parameter here (\<open>repr_dict\<close>).
\<close>

definition dict_text :: "((string \<times> string) list \<Rightarrow> string) \<Rightarrow> (string \<times> string) list \<Rightarrow> string" where
  "dict_text repr_dict response =
     (if \<not> falsy (map_of response ''response'') then the (map_of response ''response'')
      else if \<not> falsy (map_of response ''content'') then the (map_of response ''content'')
      else if \<not> falsy (map_of response ''text'') then the (map_of response ''text'')
      else repr_dict response)"

definition parse_entry ::
    "((string \<times> string) list \<Rightarrow> string) \<Rightarrow> nat \<times> stored_entry \<Rightarrow> ContextEntry" where
  "parse_entry repr_dict p =
     (let i = fst p; entry = snd p;
          llm_response =
            (if json_type entry = Some ''success'' \<and> json_llm_full_response entry \<noteq> None
             then (case the (json_llm_full_response entry) of
                     ResponseDict response \<Rightarrow> dict_text repr_dict response
                   | ResponseText response \<Rightarrow> response)
             else get_or (json_llm_error_message entry) ''Error occurred'')
      in \<lparr>type = get_or (json_type entry) ''unknown'',
          user_prompt = get_or (json_user_prompt entry) '''',
          llm_response = llm_response,
          timestamp = get_or (json_timestamp entry) '''',
          original_user_prompt = '''',
          is_plan = (contains ''plan'' (lower (get_or (json_user_prompt entry) '''')) \<or>
                     contains ''checklist'' (lower llm_response)),
          is_original_request = (i = 0),
          compaction_level = 0\<rparr>)"

definition parse_context_entries ::
    "((string \<times> string) list \<Rightarrow> string) \<Rightarrow> context_data \<Rightarrow> string \<Rightarrow> ContextEntry list" where
  "parse_context_entries repr_dict data pwd_hash =
     (case data pwd_hash of
        None \<Rightarrow> []
      | Some session_entries \<Rightarrow> map (parse_entry repr_dict) (enumerate 0 session_entries))"

definition json_entry :: "ContextEntry \<Rightarrow> stored_entry" where
  "json_entry entry =
     (if type entry = ''compacted''
      then \<lparr>json_type = Some ''compacted'',
            json_user_prompt = Some (user_prompt entry),
            json_llm_full_response = Some (ResponseDict [(''response'', llm_response entry)]),
            json_llm_error_message = None,
            json_timestamp = Some (timestamp entry),
            json_compaction_level = Some (compaction_level entry)\<rparr>
      else \<lparr>json_type = Some (type entry),
            json_user_prompt = Some (user_prompt entry),
            json_llm_full_response = Some (ResponseDict [(''response'', llm_response entry)]),
            json_llm_error_message = None,
            json_timestamp = Some (timestamp entry),
            json_compaction_level = None\<rparr>)"

text \<open>
  The file itself: absent, present but not loadable as JSON, or holding the data. A write
  either succeeds or raises; what a failed write leaves behind is not decided by the
  code, so it is an argument (\<open>None\<close>: the write succeeds).
\<close>

datatype context_file = Missing | Unreadable | Content context_data

definition save_compacted_context ::
    "context_file \<Rightarrow> context_file option \<Rightarrow> ContextEntry list \<Rightarrow> string \<Rightarrow> bool \<times> context_file" where
  "save_compacted_context file failed_write context_entries pwd_hash =
     (case file of
        Unreadable \<Rightarrow> (False, file)
      | _ \<Rightarrow>
          let data = (case file of Content d \<Rightarrow> d | _ \<Rightarrow> Map.empty);
              json_entries = map json_entry context_entries;
              data' = data(pwd_hash \<mapsto> json_entries)
          in (case failed_write of
                None \<Rightarrow> (True, Content data')
              | Some left \<Rightarrow> (False, left)))"

definition check_and_compact_context ::
    "collaborators \<Rightarrow> int \<Rightarrow> ((string \<times> string) list \<Rightarrow> string) \<Rightarrow> context_file \<Rightarrow>
     context_file option \<Rightarrow> string \<Rightarrow> string option \<Rightarrow> bool \<times> context_file" where
  "check_and_compact_context c max_context_tokens repr_dict file failed_write pwd_hash
       current_user_prompt =
     (case file of
        Missing \<Rightarrow> (True, file)
      | Unreadable \<Rightarrow> (False, file)
      | Content data \<Rightarrow>
          let entries = parse_context_entries repr_dict data pwd_hash
          in if entries = [] then (True, file)
             else if \<not> should_compact_context max_context_tokens entries then (True, file)
             else save_compacted_context file failed_write
                    (compact_context c max_context_tokens entries current_user_prompt)
                    pwd_hash)"

subsection \<open>Sample inputs for the compaction pass\<close>

definition null_collab :: collaborators where
  "null_collab = \<lparr>prepare_payload = (\<lambda>phase prompt. None), send_request = (\<lambda>payload. None)\<rparr>"

definition big_entry :: ContextEntry where
  "big_entry = \<lparr>type = ''success'', user_prompt = ''aaaaaaaa'', llm_response = '''',
     timestamp = ''t0'', original_user_prompt = '''', is_plan = False,
     is_original_request = True, compaction_level = 0\<rparr>"

definition scripted_collab :: collaborators where
  "scripted_collab = \<lparr>prepare_payload = (\<lambda>phase prompt. Some prompt),
     send_request = (\<lambda>payload. Some ''Earlier steps were done.'')\<rparr>"

definition mk_entry :: "string \<Rightarrow> string \<Rightarrow> string \<Rightarrow> bool \<Rightarrow> ContextEntry" where
  "mk_entry p r t pl = \<lparr>type = ''success'', user_prompt = p, llm_response = r,
     timestamp = t, original_user_prompt = '''', is_plan = pl,
     is_original_request = False, compaction_level = 0\<rparr>"

definition six_entries :: "ContextEntry list" where
  "six_entries =
     [mk_entry ''make a plan'' ''<checklist>1. build</checklist>'' ''t0'' True,
      mk_entry ''list files'' ''a.txt b.txt'' ''t1'' False,
      mk_entry ''run the tests'' ''all passed'' ''t2'' False,
      mk_entry ''deploy the build'' ''deployed'' ''t3'' False,
      mk_entry ''check the logs'' ''clean'' ''t4'' False,
      mk_entry ''tidy up'' ''done'' ''t5'' False]"

text \<open>
  Forty entries of 200 characters each (prompt plus response): one plan entry at index 10,
  one entry holding the current prompt \<open>deploy\<close> at index 21.
\<close>

definition filler_entry :: ContextEntry where
  "filler_entry = mk_entry (replicate 100 CHR ''a'') (replicate 100 CHR ''b'') ''t'' False"

definition forty_entries :: "ContextEntry list" where
  "forty_entries =
     replicate 10 filler_entry @
     [mk_entry (''write a plan'' @ replicate 88 CHR ''a'') (replicate 100 CHR ''b'') ''t'' True] @
     replicate 10 filler_entry @
     [mk_entry (''deploy'' @ replicate 94 CHR ''a'') (replicate 100 CHR ''b'') ''t'' False] @
     replicate 18 filler_entry"

definition terse_collab :: collaborators where
  "terse_collab = \<lparr>prepare_payload = (\<lambda>phase prompt. Some prompt),
     send_request = (\<lambda>payload. Some ''ok'')\<rparr>"

definition mute_collab :: collaborators where
  "mute_collab = \<lparr>prepare_payload = (\<lambda>phase prompt. Some prompt),
     send_request = (\<lambda>payload. None)\<rparr>"

subsection \<open>Vocabulary for stating the properties of a pass\<close>

text \<open>
  These definitions are not functions of the source. They name the parts of a pass that
  does summarise: the summary entry it builds, the marker it may append, the first
  (oldest) summarised index, the indices it keeps, and the place of a kept input index in
  the output (the number of kept indices before it, plus one once the summary has been
  passed).
\<close>

definition pass_summary :: "collaborators \<Rightarrow> string option \<Rightarrow> ContextEntry list \<Rightarrow> ContextEntry" where
  "pass_summary c current_user_prompt context_entries =
     (let entries_to_summarize =
            map (\<lambda>i. context_entries ! i) (indices_to_compact current_user_prompt context_entries)
      in summary_entry (create_context_summary c entries_to_summarize) entries_to_summarize)"

definition pass_marker :: "string option \<Rightarrow> ContextEntry list \<Rightarrow> ContextEntry list" where
  "pass_marker current_user_prompt context_entries =
     (if prompt_given current_user_prompt \<and>
         current_prompt_index current_user_prompt context_entries = - 1
      then [current_prompt_entry (the current_user_prompt)] else [])"

definition first_compacted :: "string option \<Rightarrow> ContextEntry list \<Rightarrow> nat" where
  "first_compacted current_user_prompt context_entries =
     hd (indices_to_compact current_user_prompt context_entries)"

definition kept_indices :: "string option \<Rightarrow> ContextEntry list \<Rightarrow> nat list" where
  "kept_indices current_user_prompt context_entries =
     filter (\<lambda>i. i \<notin> set (indices_to_compact current_user_prompt context_entries))
       [0..<length context_entries]"

definition output_position :: "string option \<Rightarrow> ContextEntry list \<Rightarrow> nat \<Rightarrow> nat" where
  "output_position current_user_prompt context_entries i =
     length (filter (\<lambda>k. k \<notin> set (indices_to_compact current_user_prompt context_entries))
       [0..<i]) +
     (if first_compacted current_user_prompt context_entries < i then 1 else 0)"

section \<open>Response extractor (llm/parsers.py)\<close>

text \<open>
  \<^verbatim>\<open>re.search(r"<tag>(.*?)</tag>", text, re.DOTALL)\<close> finds the leftmost opening tag that
  has a closing tag somewhere after it, and the group is the text up to the first such
  closing tag. If the first opening tag has no closing tag after it, no later one has,
  so the match, when there is one, starts at the first opening tag.
\<close>

fun split_first :: "string \<Rightarrow> string \<Rightarrow> (string \<times> string) option" where
  "split_first needle [] = (if needle = [] then Some ([], []) else None)"
| "split_first needle (c # cs) =
     (if startswith needle (c # cs) then Some ([], drop (length needle) (c # cs))
      else map_option (\<lambda>(before, after). (c # before, after)) (split_first needle cs))"

definition search_tag :: "string \<Rightarrow> string \<Rightarrow> string option" where
  "search_tag tag llm_output =
     (case split_first (''<'' @ tag @ ''>'') llm_output of
        None \<Rightarrow> None
      | Some (before, rest) \<Rightarrow>
          (case split_first (''</'' @ tag @ ''>'') rest of
             None \<Rightarrow> None
           | Some (inner, after) \<Rightarrow> Some inner))"

text \<open>
  \<^verbatim>\<open>str.strip()\<close> removes leading and trailing whitespace. The whitespace characters
  below \<open>U+0100\<close> are: tab, line feed, vertical tab, form feed, carriage return, the
  separators \<open>U+001C\<close> to \<open>U+001F\<close>, the space, the next-line control \<open>U+0085\<close> and the
  no-break space \<open>U+00A0\<close>.
\<close>

definition is_space :: "char \<Rightarrow> bool" where
  "is_space ch = (ch \<in> set [CHR 0x09, CHR 0x0A, CHR 0x0B, CHR 0x0C, CHR 0x0D,
                              CHR 0x1C, CHR 0x1D, CHR 0x1E, CHR 0x1F, CHR 0x20,
                              CHR 0x85, CHR 0xA0])"

definition strip :: "string \<Rightarrow> string" where
  "strip s = rev (dropWhile is_space (rev (dropWhile is_space s)))"

definition parse_suggested_command :: "string \<Rightarrow> string option" where
  "parse_suggested_command llm_output = map_option strip (search_tag ''command'' llm_output)"

definition parse_llm_thought :: "string \<Rightarrow> string" where
  "parse_llm_thought llm_output = get_or (map_option strip (search_tag ''think'' llm_output)) ''''"

definition parse_llm_plan :: "string \<Rightarrow> string" where
  "parse_llm_plan llm_output =
     get_or (map_option strip (search_tag ''checklist'' llm_output)) ''''"

definition parse_llm_instruction :: "string \<Rightarrow> string" where
  "parse_llm_instruction llm_output =
     get_or (map_option strip (search_tag ''instruction'' llm_output)) ''''"

definition parse_llm_decision :: "string \<Rightarrow> string" where
  "parse_llm_decision llm_output =
     get_or (map_option strip (search_tag ''decision'' llm_output)) ''''"

definition parse_llm_summary :: "string \<Rightarrow> string" where
  "parse_llm_summary llm_output =
     get_or (map_option strip (search_tag ''summary'' llm_output)) ''''"

definition parse_definition_of_done :: "string \<Rightarrow> string" where
  "parse_definition_of_done llm_output =
     get_or (map_option strip (search_tag ''definition_of_done'' llm_output)) ''''"

text \<open>\<^verbatim>\<open>decision_text.split(":", 1)\<close> cuts at the first colon.\<close>

definition extract_decision_type_and_message :: "string \<Rightarrow> string \<times> string" where
  "extract_decision_type_and_message decision_text =
     (if decision_text = [] then ('''', '''')
      else if CHR '':'' \<in> set decision_text
      then (strip (takeWhile (\<lambda>ch. ch \<noteq> CHR '':'') decision_text),
            strip (tl (dropWhile (\<lambda>ch. ch \<noteq> CHR '':'') decision_text)))
      else (strip decision_text, ''''))"

section \<open>Task orchestrator (core/task\_handler.py)\<close>

subsection \<open>Data\<close>

datatype TaskStatus = IN_PROGRESS | COMPLETED | FAILED | CANCELLED

record TaskState =
  current_plan :: string
  current_instruction :: string
  plan_array :: "string list"
  step_index :: int
  last_action_taken :: string
  last_action_result :: string
  user_clarification :: string
  last_eval_decision :: string
  iteration :: int
  definition_of_done :: string
  planner_summary :: string
  actor_summary :: string
  evaluator_summary :: string

definition initial_state :: TaskState where
  "initial_state =
     \<lparr>current_plan = '''', current_instruction = '''', plan_array = [], step_index = 0,
      last_action_taken = '''', last_action_result = '''', user_clarification = '''',
      last_eval_decision = '''', iteration = 0, definition_of_done = '''',
      planner_summary = '''', actor_summary = '''', evaluator_summary = ''''\<rparr>"

subsection \<open>Handling a suggested command\<close>

text \<open>
  What \<^verbatim>\<open>_handle_command_suggestion\<close> gets from outside: the configured operation mode,
  the permission manager's two calls, the line the user types at the confirmation
  prompt, and the command executor (exit code and combined output). Besides the status
  and the state, the model returns the command handed to the executor, if any.
\<close>

record command_env =
  operation_mode :: string
  check_command_permission :: "string \<Rightarrow> string \<Rightarrow> bool \<times> string"
  prompt_for_permission :: "string \<Rightarrow> int \<times> string"
  confirmation_line :: string
  execute :: "string \<Rightarrow> int \<times> string"

definition run_command :: "command_env \<Rightarrow> string \<Rightarrow> TaskState \<Rightarrow>
    TaskStatus \<times> TaskState \<times> string option" where
  "run_command env command state =
     (let result = execute env command;
          exit_code = fst result;
          output = snd result
      in (IN_PROGRESS,
          state\<lparr>last_action_taken := ''Executed command: '' @ command,
                last_action_result := ''Exit Code: '' @ str_int exit_code @ ''. Output:'' @ nl @
                  (if output \<noteq> [] then output else ''(no output)'')\<rparr>,
          Some command))"

text \<open>The part under \<^verbatim>\<open>if allowed:\<close>, reached with \<^verbatim>\<open>allowed\<close> true.\<close>

definition confirm_and_run :: "command_env \<Rightarrow> string \<Rightarrow> TaskState \<Rightarrow>
    TaskStatus \<times> TaskState \<times> string option" where
  "confirm_and_run env command state =
     (if operation_mode env = ''normal'' \<and> lower (confirmation_line env) \<noteq> ''y''
      then (IN_PROGRESS,
            state\<lparr>last_action_taken := ''Command '' @ sq @ command @ sq @ '' cancelled by user'',
                  last_action_result := ''User cancelled at confirmation''\<rparr>,
            None)
      else run_command env command state)"

definition handle_command_suggestion :: "command_env \<Rightarrow> string \<Rightarrow> TaskState \<Rightarrow>
    TaskStatus \<times> TaskState \<times> string option" where
  "handle_command_suggestion env command state =
     (if command = ''report_task_completion''
      then (IN_PROGRESS,
            state\<lparr>last_action_taken := ''Internal signal: report_task_completion'',
                  last_action_result :=
                    ''Action Agent determined task is complete and signaled Evaluator.''\<rparr>,
            None)
      else
        let permission = check_command_permission env command (operation_mode env);
            allowed = fst permission;
            reason = snd permission
        in if \<not> allowed
           then (if operation_mode env = ''normal''
                 then (IN_PROGRESS,
                       state\<lparr>last_action_taken := ''Command '' @ sq @ command @ sq @ '' not executed.'',
                             last_action_result := ''Command blocked: '' @ reason\<rparr>,
                       None)
                 else if operation_mode env = ''goblin''
                 then confirm_and_run env command state
                 else if operation_mode env = ''gremlin''
                 then (let answer = prompt_for_permission env command;
                           decision = fst answer;
                           perm_reason = snd answer
                       in if decision = 0 then confirm_and_run env command state
                          else if decision = 2 then (CANCELLED, state, None)
                          else (IN_PROGRESS,
                                state\<lparr>last_action_taken :=
                                        ''Command '' @ sq @ command @ sq @ '' denied by user'',
                                      last_action_result :=
                                        ''User denied permission: '' @ perm_reason\<rparr>,
                                None))
                 else (IN_PROGRESS, state, None))
           else confirm_and_run env command state)"

subsection \<open>Routing the evaluator's decision\<close>

text \<open>
  The configuration flag \<^verbatim>\<open>allow_clarifying_questions\<close> and the line the user types when a
  clarifying question is put (\<^verbatim>\<open>input()\<close>).
\<close>

record dialogue =
  allow_clarifying_questions :: bool
  typed_line :: string

definition process_evaluation_decision ::
    "dialogue \<Rightarrow> string \<Rightarrow> string \<Rightarrow> TaskState \<Rightarrow> string \<Rightarrow> TaskStatus \<times> string \<times> TaskState" where
  "process_evaluation_decision dlg decision_type message state original_prompt =
     (if decision_type = ''TASK_COMPLETE'' then (COMPLETED, '''', state)
      else if decision_type = ''TASK_FAILED'' then (FAILED, '''', state)
      else if decision_type = ''CONTINUE_PLAN''
      then (let state1 = state\<lparr>step_index := step_index state + 1\<rparr>;
                next_context =
                  ''Original request: '' @ sq @ original_prompt @ sq @ ''.'' @ nl @
                  ''Current plan:'' @ nl @ current_plan state1 @ nl @
                  ''Previous instruction ('' @ sq @ current_instruction state1 @ sq @
                    '') was completed successfully.'' @ nl @
                  ''Result: '' @ sq @ last_action_result state1 @ sq @ ''.'' @ nl @
                  ''Evaluator says: '' @ sq @ message @ sq @ ''.'' @ nl @
                  ''Provide the next instruction from the plan for step '' @
                    str_int (step_index state1 + 1) @ ''.''
            in (IN_PROGRESS, next_context, state1\<lparr>user_clarification := ''''\<rparr>))
      else if decision_type = ''REVISE_PLAN''
      then (let next_context =
                  ''Original request: '' @ sq @ current_instruction state @ sq @ ''.'' @ nl @
                  ''Prev plan:'' @ nl @ current_plan state @ nl @
                  ''Prev instruction ('' @ sq @ current_instruction state @ sq @
                    '') result: '' @ sq @ last_action_result state @ sq @ ''.'' @ nl @
                  ''Evaluator suggests revision: '' @ sq @ message @ sq @ ''.'' @ nl @
                  ''Revise checklist and provide new first instruction.''
            in (IN_PROGRESS, next_context,
                state\<lparr>current_plan := '''', current_instruction := '''',
                      user_clarification := ''''\<rparr>))
      else if decision_type = ''CLARIFY_USER''
      then (if allow_clarifying_questions dlg
            then (let state1 = state\<lparr>user_clarification := typed_line dlg\<rparr>;
                      next_context =
                        ''Original request: '' @ sq @ current_instruction state1 @ sq @ ''.'' @ nl @
                        ''After action '' @ sq @ last_action_taken state1 @ sq @
                          '' (result: '' @ sq @ last_action_result state1 @ sq @ ''), '' @
                        ''evaluator needs clarification. Question: '' @ sq @ message @ sq @
                          ''.'' @ nl @
                        ''User'' @ sq @ ''s answer: '' @ sq @ user_clarification state1 @ sq @
                          ''.'' @ nl @
                        ''Revise plan/next instruction based on this.''
                  in (IN_PROGRESS, next_context,
                      state1\<lparr>current_plan := '''', current_instruction := ''''\<rparr>))
            else (FAILED, '''', state))
      else if decision_type = ''VERIFY_ACTION''
      then (let verification_context =
                  ''Original request: '' @ sq @ current_instruction state @ sq @ ''.'' @ nl @
                  ''Previous action: '' @ sq @ last_action_taken state @ sq @
                    '' (result: '' @ sq @ last_action_result state @ sq @ '').'' @ nl @
                  ''Evaluator needs verification. Execute this command to verify the outcome: '' @
                    message
            in (IN_PROGRESS, verification_context,
                state\<lparr>current_instruction := ''Execute verification command: '' @ message,
                      user_clarification := ''''\<rparr>))
      else (FAILED, '''', state))"

subsection \<open>The phases\<close>

text \<open>
  Each phase is a \<^verbatim>\<open>while True\<close> loop that calls the model and either returns or retries
  with a corrected context; the source has no bound on the retries. The loops are
  modelled with fuel: one unit for each pass through the loop body, and the status
  \<open>None\<close> when the fuel runs out while the loop is still retrying. The list of pairs is
  the log written by \<^verbatim>\<open>config_manager.append_context\<close>: the labelled input and the
  response of every model call that answered. The call of
  \<^verbatim>\<open>check_and_compact_context\<close> at the head of each pass acts on the durable store only and
  its result is dropped; the store is not part of these states.
\<close>

definition evaluation_retry_context :: "string \<Rightarrow> string" where
  "evaluation_retry_context context =
     context @ nl @ nl @ ''PREVIOUS ATTEMPT FAILED. '' @
     ''Your last response was invalid. Reason: '' @
     ''Response did not contain a valid `<decision>...</decision>` block.'' @ nl @
     ''Please correct your response and provide a valid decision.''"

fun evaluation_loop :: "collaborators \<Rightarrow> dialogue \<Rightarrow> nat \<Rightarrow> nat \<Rightarrow> string \<Rightarrow> string \<Rightarrow>
    TaskState \<Rightarrow> string \<Rightarrow> (string \<times> string) list \<Rightarrow>
    TaskStatus option \<times> string \<times> TaskState \<times> (string \<times> string) list" where
  "evaluation_loop c dlg 0 attempt context current_context state original_prompt log =
     (None, '''', state, log)"
| "evaluation_loop c dlg (Suc fuel) attempt0 context current_context state original_prompt log =
     (let attempt = attempt0 + 1;
          payload = prepare_payload c ''evaluate'' current_context
      in if falsy payload then (Some FAILED, '''', state, log)
         else
           let response = send_request c (the payload)
           in if falsy response then (Some FAILED, '''', state, log)
              else
                let log1 = log @ [(''Evaluator Input (Attempt '' @ str_nat attempt @ ''): '' @
                                    current_context, the response)];
                    state1 = state\<lparr>evaluator_summary := parse_llm_summary (the response)\<rparr>;
                    decision = parse_llm_decision (the response)
                in if decision \<noteq> []
                   then (let dm = extract_decision_type_and_message decision;
                             state2 = state1\<lparr>last_eval_decision := fst dm\<rparr>;
                             r = process_evaluation_decision dlg (fst dm) (snd dm) state2
                                   original_prompt
                         in (Some (fst r), fst (snd r), snd (snd r), log1))
                   else evaluation_loop c dlg fuel attempt context
                          (evaluation_retry_context context) state1 original_prompt log1)"

definition execute_evaluation_phase :: "collaborators \<Rightarrow> dialogue \<Rightarrow> nat \<Rightarrow> string \<Rightarrow>
    TaskState \<Rightarrow> string \<Rightarrow> (string \<times> string) list \<Rightarrow>
    TaskStatus option \<times> string \<times> TaskState \<times> (string \<times> string) list" where
  "execute_evaluation_phase c dlg fuel context state original_prompt log =
     evaluation_loop c dlg fuel 0 context context state original_prompt log"

text \<open>
  \<^verbatim>\<open>[line.strip() for line in current_plan.splitlines() if line.strip()]\<close>. The text is cut
  at every line boundary character (below \<open>U+0100\<close>: line feed, vertical tab, form feed,
  carriage return, \<open>U+001C\<close> to \<open>U+001E\<close> and \<open>U+0085\<close>); \<^verbatim>\<open>splitlines\<close> takes carriage
  return plus line feed as one boundary and drops a last empty line, which differs only
  by empty pieces, and those the comprehension leaves out.
\<close>

definition is_line_break :: "char \<Rightarrow> bool" where
  "is_line_break ch =
     (ch \<in> set [CHR 0x0A, CHR 0x0B, CHR 0x0C, CHR 0x0D, CHR 0x1C, CHR 0x1D, CHR 0x1E,
                 CHR 0x85])"

fun split_on :: "(char \<Rightarrow> bool) \<Rightarrow> string \<Rightarrow> string list" where
  "split_on P [] = [[]]"
| "split_on P (ch # cs) =
     (if P ch then [] # split_on P cs
      else (ch # hd (split_on P cs)) # tl (split_on P cs))"

definition plan_lines :: "string \<Rightarrow> string list" where
  "plan_lines plan = filter (\<lambda>line. line \<noteq> []) (map strip (split_on is_line_break plan))"

definition missing_checklist_message :: string where
  "missing_checklist_message =
     ''Response did not contain a valid `<checklist>...</checklist>` block.''"

definition missing_instruction_message :: string where
  "missing_instruction_message =
     ''Response did not contain a valid `<instruction>...</instruction>` block.''"

definition plan_error_message :: "TaskState \<Rightarrow> string" where
  "plan_error_message state =
     join '' ''
       ((if current_plan state = [] then [missing_checklist_message] else []) @
        (if current_instruction state = [] then [missing_instruction_message] else []))"

definition correction_request :: "string \<Rightarrow> string \<Rightarrow> string" where
  "correction_request error_message context = join nl
    [''<correction_request>'',
     ''<error>'',
     ''<type>Invalid Response Format</type>'',
     ''<message>Your previous response was malformed and did not follow the required structure.</message>'',
     ''<details>'' @ error_message @ ''</details>'',
     ''</error>'',
     ''<instruction>'',
     ''You MUST correct your output. Your response MUST contain BOTH a `<checklist>...</checklist>` block AND an `<instruction>...</instruction>` block. This is not optional. Failure to comply will result in task termination.'',
     ''</instruction>'',
     ''<original_context>'',
     context,
     ''</original_context>'',
     ''</correction_request>'']"

definition clarification_disabled_context :: "string \<Rightarrow> string" where
  "clarification_disabled_context context =
     context @ nl @ nl @ ''PREVIOUS ATTEMPT FAILED. '' @
     ''Your last response requested user clarification, which is disabled. '' @
     ''Please generate a plan without asking questions.''"

fun plan_loop :: "collaborators \<Rightarrow> dialogue \<Rightarrow> nat \<Rightarrow> nat \<Rightarrow> string \<Rightarrow> TaskState \<Rightarrow>
    (string \<times> string) list \<Rightarrow> TaskStatus option \<times> TaskState \<times> (string \<times> string) list" where
  "plan_loop c dlg 0 attempt context state log = (None, state, log)"
| "plan_loop c dlg (Suc fuel) attempt0 context state log =
     (let attempt = attempt0 + 1;
          payload = prepare_payload c ''plan'' context
      in if falsy payload then (Some FAILED, state, log)
         else
           let response = send_request c (the payload)
           in if falsy response then (Some FAILED, state, log)
              else
                let log1 = log @ [(''Planner Input (Attempt '' @ str_nat (attempt + 1) @
                                    ''): '' @ context, the response)];
                    decision = parse_llm_decision (the response)
                in if startswith ''CLARIFY_USER:'' decision
                   then (if allow_clarifying_questions dlg
                         then (Some IN_PROGRESS,
                               state\<lparr>user_clarification := typed_line dlg,
                                     last_eval_decision := ''PLANNER_CLARIFY'',
                                     current_plan := ''''\<rparr>,
                               log1)
                         else plan_loop c dlg fuel attempt
                                (clarification_disabled_context context) state log1)
                   else
                     let state1 = state\<lparr>current_plan := parse_llm_plan (the response),
                                         current_instruction :=
                                           parse_llm_instruction (the response),
                                         planner_summary := parse_llm_summary (the response),
                                         definition_of_done :=
                                           parse_definition_of_done (the response)\<rparr>
                     in if current_plan state1 \<noteq> [] \<and> current_instruction state1 \<noteq> []
                        then (Some IN_PROGRESS,
                              state1\<lparr>plan_array := plan_lines (current_plan state1),
                                     step_index := 0,
                                     user_clarification := '''',
                                     last_eval_decision := ''''\<rparr>,
                              log1)
                        else plan_loop c dlg fuel attempt
                               (correction_request (plan_error_message state1) context)
                               state1 log1)"

definition execute_plan_phase :: "collaborators \<Rightarrow> dialogue \<Rightarrow> nat \<Rightarrow> string \<Rightarrow> TaskState \<Rightarrow>
    (string \<times> string) list \<Rightarrow> TaskStatus option \<times> TaskState \<times> (string \<times> string) list" where
  "execute_plan_phase c dlg fuel context state log = plan_loop c dlg fuel 0 context state log"

definition action_retry_context :: "string \<Rightarrow> string" where
  "action_retry_context context =
     context @ nl @ nl @ ''PREVIOUS ATTEMPT FAILED. '' @
     ''Your last response was invalid. Reason: '' @
     ''Action agent response did not contain a valid `<command>...</command>` block. '' @
     ''This is a format violation. You MUST provide a command.'' @ nl @
     ''Please correct your response and provide a valid command.''"

fun action_loop :: "collaborators \<Rightarrow> command_env \<Rightarrow> nat \<Rightarrow> nat \<Rightarrow> string \<Rightarrow> TaskState \<Rightarrow>
    (string \<times> string) list \<Rightarrow>
    TaskStatus option \<times> TaskState \<times> string option \<times> (string \<times> string) list" where
  "action_loop c env 0 attempt context state log = (None, state, None, log)"
| "action_loop c env (Suc fuel) attempt0 context state log =
     (let attempt = attempt0 + 1;
          payload = prepare_payload c ''action'' context
      in if falsy payload then (Some FAILED, state, None, log)
         else
           let response = send_request c (the payload)
           in if falsy response then (Some FAILED, state, None, log)
              else
                let log1 = log @ [(''Actor Input (Attempt '' @ str_nat attempt @ ''): '' @
                                    context, the response)];
                    state1 = state\<lparr>actor_summary := parse_llm_summary (the response)\<rparr>;
                    suggested_command = parse_suggested_command (the response)
                in if \<not> falsy suggested_command
                   then (let r = handle_command_suggestion env (the suggested_command) state1
                         in (Some (fst r), fst (snd r), snd (snd r), log1))
                   else action_loop c env fuel attempt (action_retry_context context)
                          state1 log1)"

definition execute_action_phase :: "collaborators \<Rightarrow> command_env \<Rightarrow> nat \<Rightarrow> string \<Rightarrow>
    TaskState \<Rightarrow> (string \<times> string) list \<Rightarrow>
    TaskStatus option \<times> TaskState \<times> string option \<times> (string \<times> string) list" where
  "execute_action_phase c env fuel context state log =
     action_loop c env fuel 0 context state log"

subsection \<open>Sample inputs for the orchestrator\<close>

definition normal_env :: command_env where
  "normal_env =
     \<lparr>operation_mode = ''normal'',
      check_command_permission = (\<lambda>command mode. (True, ''whitelisted'')),
      prompt_for_permission = (\<lambda>command. (1, ''denied'')),
      confirmation_line = ''n'',
      execute = (\<lambda>command. (0, ''a.txt''))\<rparr>"

definition gremlin_cancel_env :: command_env where
  "gremlin_cancel_env =
     \<lparr>operation_mode = ''gremlin'',
      check_command_permission = (\<lambda>command mode. (False, ''unknown command'')),
      prompt_for_permission = (\<lambda>command. (2, ''cancelled'')),
      confirmation_line = '''',
      execute = (\<lambda>command. (0, ''a.txt''))\<rparr>"

definition asking :: dialogue where
  "asking = \<lparr>allow_clarifying_questions = True, typed_line = ''the staging server''\<rparr>"

definition silent :: dialogue where
  "silent = \<lparr>allow_clarifying_questions = False, typed_line = ''''\<rparr>"

text \<open>A model that answers a context by a fixed table, and fails outside it.\<close>

definition table_collab :: "(string \<times> string) list \<Rightarrow> collaborators" where
  "table_collab table =
     \<lparr>prepare_payload = (\<lambda>phase prompt. Some prompt),
      send_request = (\<lambda>payload. map_of table payload)\<rparr>"

definition clarify_response :: string where
  "clarify_response =
     ''<checklist>1. deploy</checklist><decision>CLARIFY_USER: Which server?</decision>''"

definition checklist_only_response :: string where
  "checklist_only_response = ''<checklist>1. build</checklist>''"

definition full_plan_response :: string where
  "full_plan_response = ''<checklist>1. build</checklist><instruction>run make</instruction>''"

definition retry_collab :: collaborators where
  "retry_collab =
     table_collab
       [(''build it'', checklist_only_response),
        (correction_request missing_instruction_message ''build it'', full_plan_response)]"

definition firm_collab :: collaborators where
  "firm_collab =
     table_collab
       [(''build it'', clarify_response),
        (clarification_disabled_context ''build it'', full_plan_response)]"

section \<open>Auxiliary facts\<close>

subsection \<open>Index search, rebuild loop, index arithmetic\<close>

lemma find_first_index_rev_snoc:
  "find_first_index P (rev (enumerate 0 (es @ [x]))) =
     (if P x then int (length es) else find_first_index P (rev (enumerate 0 es)))"
  by (simp add: enumerate_append_eq)

lemma find_first_index_none:
  "(find_first_index P (rev (enumerate 0 es)) = - 1) = (\<forall>e \<in> set es. \<not> P e)"
proof (induction es rule: rev_induct)
  case Nil
  then show ?case by simp
next
  case (snoc x es)
  then show ?case by (auto simp: find_first_index_rev_snoc)
qed

lemma find_first_index_range:
  "find_first_index P (rev (enumerate 0 es)) = - 1 \<or>
   (0 \<le> find_first_index P (rev (enumerate 0 es)) \<and>
    find_first_index P (rev (enumerate 0 es)) < int (length es))"
proof (induction es rule: rev_induct)
  case Nil
  then show ?case by simp
next
  case (snoc x es)
  then show ?case by (auto simp: find_first_index_rev_snoc)
qed

lemma find_first_index_latest:
  assumes "i < length es" and "P (es ! i)"
    and "\<forall>j. i < j \<and> j < length es \<longrightarrow> \<not> P (es ! j)"
  shows "find_first_index P (rev (enumerate 0 es)) = int i"
  using assms
proof (induction es rule: rev_induct)
  case Nil
  then show ?case by simp
next
  case (snoc x es)
  show ?case
  proof (cases "i = length es")
    case True
    with snoc.prems show ?thesis by (simp add: find_first_index_rev_snoc)
  next
    case False
    with snoc.prems have lt: "i < length es" by simp
    from snoc.prems lt have "\<not> P ((es @ [x]) ! length es)"
      by (metis length_append_singleton lessI)
    then have nx: "\<not> P x" by simp
    have pi: "P (es ! i)" using snoc.prems lt by (simp add: nth_append)
    have later: "\<forall>j. i < j \<and> j < length es \<longrightarrow> \<not> P (es ! j)"
    proof (intro allI impI)
      fix j assume j: "i < j \<and> j < length es"
      then have "\<not> P ((es @ [x]) ! j)" using snoc.prems by simp
      with j show "\<not> P (es ! j)" by (simp add: nth_append)
    qed
    from snoc.IH [OF lt pi later] nx show ?thesis
      by (simp add: find_first_index_rev_snoc)
  qed
qed

lemma find_first_index_hit:
  assumes "find_first_index P (rev (enumerate 0 es)) = int i"
  shows "i < length es \<and> P (es ! i) \<and> (\<forall>j. i < j \<and> j < length es \<longrightarrow> \<not> P (es ! j))"
  using assms
proof (induction es rule: rev_induct)
  case Nil
  then show ?case by simp
next
  case (snoc x es)
  show ?case
  proof (cases "P x")
    case True
    with snoc.prems have "i = length es" by (simp add: find_first_index_rev_snoc)
    with True show ?thesis by (auto simp: nth_append)
  next
    case False
    with snoc.prems have "find_first_index P (rev (enumerate 0 es)) = int i"
      by (simp add: find_first_index_rev_snoc)
    from snoc.IH [OF this] False show ?thesis
      by (auto simp: nth_append less_Suc_eq)
  qed
qed

lemma rebuild_inserted:
  "rebuild S summ True xs = map snd (filter (\<lambda>p. fst p \<notin> set S) xs)"
  by (induction xs) auto

lemma rebuild_fresh:
  "rebuild S summ False xs =
     map snd (takeWhile (\<lambda>p. fst p \<notin> set S) xs) @
     (case dropWhile (\<lambda>p. fst p \<notin> set S) xs of
        [] \<Rightarrow> []
      | q # rest \<Rightarrow> summ # map snd (filter (\<lambda>p. fst p \<notin> set S) rest))"
  by (induction xs) (auto simp: rebuild_inserted)

lemma rebuild_keeps:
  "(i, e) \<in> set xs \<Longrightarrow> i \<notin> set S \<Longrightarrow> e \<in> set (rebuild S summ b xs)"
  by (induction xs arbitrary: b) auto

lemma compactable_sorted: "sorted (compactable_indices cp es)"
  by (simp add: compactable_indices_def sorted_wrt_filter)

lemma compactable_distinct: "distinct (compactable_indices cp es)"
  by (simp add: compactable_indices_def)

lemma compactable_bound: "i \<in> set (compactable_indices cp es) \<Longrightarrow> i < length es"
  by (simp add: compactable_indices_def)

lemma to_compact_subset:
  "i \<in> set (indices_to_compact cp es) \<Longrightarrow> i \<in> set (compactable_indices cp es)"
  by (auto simp: indices_to_compact_def Let_def dest: in_set_takeD)

lemma to_compact_bound: "i \<in> set (indices_to_compact cp es) \<Longrightarrow> i < length es"
  by (blast intro: compactable_bound to_compact_subset)

lemma to_compact_sorted: "sorted (indices_to_compact cp es)"
  by (simp add: indices_to_compact_def Let_def sorted_wrt_take compactable_sorted)

lemma to_compact_distinct: "distinct (indices_to_compact cp es)"
  by (simp add: indices_to_compact_def Let_def compactable_distinct)

lemma to_compact_length:
  "length (indices_to_compact cp es) = length (compactable_indices cp es) div 2"
  by (simp add: indices_to_compact_def Let_def)

lemma to_compact_nonempty:
  "2 \<le> length (compactable_indices cp es) \<Longrightarrow> indices_to_compact cp es \<noteq> []"
proof
  assume a: "2 \<le> length (compactable_indices cp es)" and e: "indices_to_compact cp es = []"
  from e have "length (indices_to_compact cp es) = 0" by simp
  then have "length (compactable_indices cp es) div 2 = 0" by (simp add: to_compact_length)
  with a show False by simp
qed

lemma sorted_hd_least: "sorted (S::nat list) \<Longrightarrow> S \<noteq> [] \<Longrightarrow> i \<in> set S \<Longrightarrow> hd S \<le> i"
  by (cases S) auto

lemma to_compact_hd_first:
  assumes "indices_to_compact cp es \<noteq> []"
  shows "hd (indices_to_compact cp es) \<in> set (indices_to_compact cp es)"
    and "i < hd (indices_to_compact cp es) \<Longrightarrow> i \<notin> set (indices_to_compact cp es)"
    and "hd (indices_to_compact cp es) < length es"
proof -
  show h: "hd (indices_to_compact cp es) \<in> set (indices_to_compact cp es)"
    using assms by simp
  show "i < hd (indices_to_compact cp es) \<Longrightarrow> i \<notin> set (indices_to_compact cp es)"
    using sorted_hd_least [OF to_compact_sorted assms, of i] by auto
  show "hd (indices_to_compact cp es) < length es"
    using h by (rule to_compact_bound)
qed

text \<open>enumerate as a map over the index range\<close>

lemma enumerate_as_map:
  "enumerate k xs = map (\<lambda>i. (i, xs ! (i - k))) [k..<k + length xs]"
  by (rule nth_equalityI) (simp_all add: nth_enumerate_eq)

lemma kept_of_enumerate:
  "map snd (filter (\<lambda>p. fst p \<notin> A) (enumerate k xs)) =
     map (\<lambda>i. xs ! (i - k)) (filter (\<lambda>i. i \<notin> A) [k..<k + length xs])"
  by (simp add: enumerate_as_map filter_map comp_def)

lemma kept_of_enumerate_drop:
  assumes "k \<le> length es"
  shows "map snd (filter (\<lambda>p. fst p \<notin> A) (enumerate k (drop k es))) =
     map (\<lambda>i. es ! i) (filter (\<lambda>i. i \<notin> A) [k..<length es])"
proof -
  have "map (\<lambda>i. drop k es ! (i - k)) (filter (\<lambda>i. i \<notin> A) [k..<k + length (drop k es)])
      = map (\<lambda>i. es ! i) (filter (\<lambda>i. i \<notin> A) [k..<length es])"
    using assms by (intro map_cong) auto
  then show ?thesis by (simp only: kept_of_enumerate)
qed

lemma rebuild_at_first:
  assumes m: "m \<in> set S" and first: "\<forall>i<m. i \<notin> set S" and len: "m < length es"
  shows "rebuild S summ False (enumerate 0 es) =
     take m es @ summ # map (\<lambda>i. es ! i) (filter (\<lambda>i. i \<notin> set S) [Suc m..<length es])"
proof -
  let ?P = "\<lambda>p::nat \<times> ContextEntry. fst p \<notin> set S"
  have split: "enumerate 0 es =
      enumerate 0 (take m es) @ (m, es ! m) # enumerate (Suc m) (drop (Suc m) es)"
  proof -
    have "es = take m es @ es ! m # drop (Suc m) es"
      using len by (simp add: id_take_nth_drop)
    then have "enumerate 0 es = enumerate 0 (take m es @ es ! m # drop (Suc m) es)"
      by simp
    also have "\<dots> = enumerate 0 (take m es) @ (m, es ! m) # enumerate (Suc m) (drop (Suc m) es)"
      using len by (simp add: enumerate_append_eq min_def)
    finally show ?thesis .
  qed
  have all: "\<forall>p \<in> set (enumerate 0 (take m es)). ?P p"
    using first by (auto simp: in_set_enumerate_eq)
  have notm: "\<not> ?P (m, es ! m)" using m by simp
  have tw: "takeWhile ?P (enumerate 0 es) = enumerate 0 (take m es)"
    unfolding split using all notm by (simp add: takeWhile_append2)
  have dw: "dropWhile ?P (enumerate 0 es) = (m, es ! m) # enumerate (Suc m) (drop (Suc m) es)"
    unfolding split using all notm by (simp add: dropWhile_append2)
  have rest: "map snd (filter ?P (enumerate (Suc m) (drop (Suc m) es))) =
      map (\<lambda>i. es ! i) (filter (\<lambda>i. i \<notin> set S) [Suc m..<length es])"
    using len by (intro kept_of_enumerate_drop) simp
  show ?thesis
    by (simp only: rebuild_fresh tw dw list.case rest map_snd_enumerate)
qed

lemma upt_split: "i \<le> n \<Longrightarrow> [0..<n] = [0..<i] @ [i..<n]"
  using upt_add_eq_append [of 0 i "n - i"] by simp

lemma upt_split3: "i < n \<Longrightarrow> [0..<n] = [0..<i] @ i # [Suc i..<n]"
  using upt_split [of i n] by (simp add: upt_conv_Cons)

lemma rank_nth:
  "i < n \<Longrightarrow> P i \<Longrightarrow> filter P [0..<n] ! length (filter P [0..<i]) = i"
  by (simp add: upt_split3 [of i n] nth_append)

lemma rank_less:
  "i < n \<Longrightarrow> P i \<Longrightarrow> length (filter P [0..<i]) < length (filter P [0..<n])"
  by (simp add: upt_split3 [of i n])

lemma rank_below: "\<forall>k<m. P k \<Longrightarrow> i \<le> m \<Longrightarrow> length (filter P [0..<i]) = i"
proof -
  assume a: "\<forall>k<m. P k" and b: "i \<le> m"
  have "filter P [0..<i] = [0..<i]" using a b by (intro filter_True) auto
  then show ?thesis by simp
qed

lemma rank_above: "\<forall>k<m. P k \<Longrightarrow> m \<le> i \<Longrightarrow> m \<le> length (filter P [0..<i])"
proof -
  assume a: "\<forall>k<m. P k" and b: "m \<le> i"
  have "filter P [0..<i] = filter P [0..<m] @ filter P [m..<i]"
    using b by (simp add: upt_split [of m i])
  moreover have "length (filter P [0..<m]) = m" using a by (rule rank_below) simp
  ultimately show ?thesis by simp
qed

lemma kept_split:
  assumes m: "m \<in> A" and first: "\<forall>i<m. i \<notin> A" and len: "m < n"
  shows "filter (\<lambda>i. i \<notin> A) [0..<n] = [0..<m] @ filter (\<lambda>i. i \<notin> A) [Suc m..<n]"
proof -
  have "filter (\<lambda>i. i \<notin> A) [0..<m] = [0..<m]" using first by (intro filter_True) auto
  then show ?thesis using m len by (simp add: upt_split3 [of m n])
qed

lemma insert_at_nth_low: "r < m \<Longrightarrow> r < length K \<Longrightarrow> (take m K @ x # drop m K @ ys) ! r = K ! r"
  by (simp add: nth_append)

lemma insert_at_nth_high:
  "m \<le> r \<Longrightarrow> r < length K \<Longrightarrow> (take m K @ x # drop m K @ ys) ! Suc r = K ! r"
proof -
  assume a: "m \<le> r" and b: "r < length K"
  then have "r - m < length K - m" by arith
  then show ?thesis using a b by (simp add: nth_append min_def)
qed

lemma insert_at_nth_mid: "m \<le> length K \<Longrightarrow> (take m K @ x # drop m K @ ys) ! m = x"
  by (simp add: nth_append min_def)

subsection \<open>Shape of a summarising pass\<close>

lemma compact_context_pass:
  assumes sc: "should_compact_context mx es"
    and two: "2 \<le> length (compactable_indices cp es)"
  shows "compact_context c mx es cp =
     rebuild (indices_to_compact cp es) (pass_summary c cp es) False (enumerate 0 es) @
     pass_marker cp es"
proof -
  have ne: "indices_to_compact cp es \<noteq> []" using two by (rule to_compact_nonempty)
  have "\<not> length (compactable_indices cp es) < 2" using two by simp
  then show ?thesis
    using sc ne by (simp add: compact_context_def pass_summary_def pass_marker_def Let_def)
qed

lemma compact_context_shape:
  assumes sc: "should_compact_context mx es"
    and two: "2 \<le> length (compactable_indices cp es)"
  shows "compact_context c mx es cp =
     take (first_compacted cp es) (map (\<lambda>i. es ! i) (kept_indices cp es)) @
     pass_summary c cp es #
     drop (first_compacted cp es) (map (\<lambda>i. es ! i) (kept_indices cp es)) @
     pass_marker cp es"
proof -
  let ?S = "indices_to_compact cp es"
  let ?m = "first_compacted cp es"
  have ne: "?S \<noteq> []" using two by (rule to_compact_nonempty)
  have m: "?m \<in> set ?S" unfolding first_compacted_def by (rule to_compact_hd_first(1) [OF ne])
  have first: "\<forall>i<?m. i \<notin> set ?S"
    unfolding first_compacted_def using to_compact_hd_first(2) [OF ne] by blast
  have len: "?m < length es" unfolding first_compacted_def by (rule to_compact_hd_first(3) [OF ne])
  have kept: "kept_indices cp es = [0..<?m] @ filter (\<lambda>i. i \<notin> set ?S) [Suc ?m..<length es]"
    unfolding kept_indices_def by (rule kept_split [OF m first len])
  have tk: "map (\<lambda>i. es ! i) [0..<?m] = take ?m es"
    using len by (intro nth_equalityI) simp_all
  have "rebuild ?S (pass_summary c cp es) False (enumerate 0 es) =
      take ?m es @ pass_summary c cp es #
        map (\<lambda>i. es ! i) (filter (\<lambda>i. i \<notin> set ?S) [Suc ?m..<length es])"
    by (rule rebuild_at_first [OF m first len])
  moreover have "take ?m (map (\<lambda>i. es ! i) (kept_indices cp es)) = take ?m es"
    using len by (simp add: kept tk)
  moreover have "drop ?m (map (\<lambda>i. es ! i) (kept_indices cp es)) =
      map (\<lambda>i. es ! i) (filter (\<lambda>i. i \<notin> set ?S) [Suc ?m..<length es])"
    by (simp add: kept)
  ultimately show ?thesis
    by (simp add: compact_context_pass [OF sc two])
qed

lemma kept_positions:
  assumes ne: "indices_to_compact cp es \<noteq> []"
    and i: "i < length es" and k: "i \<notin> set (indices_to_compact cp es)"
  defines "K \<equiv> map (\<lambda>i. es ! i) (kept_indices cp es)"
    and "m \<equiv> first_compacted cp es"
  shows "output_position cp es i < Suc (length K)"
    and "output_position cp es i \<noteq> m"
    and "(take m K @ x # drop m K @ ys) ! output_position cp es i = es ! i"
proof -
  let ?S = "indices_to_compact cp es"
  let ?P = "\<lambda>k. k \<notin> set ?S"
  let ?r = "length (filter ?P [0..<i])"
  have m: "m \<in> set ?S" unfolding m_def first_compacted_def by (rule to_compact_hd_first(1) [OF ne])
  have first: "\<forall>i<m. ?P i"
    unfolding m_def first_compacted_def using to_compact_hd_first(2) [OF ne] by blast
  have im: "i \<noteq> m" using m k by auto
  have lenK: "length K = length (filter ?P [0..<length es])"
    by (simp add: K_def kept_indices_def)
  have r_lt: "?r < length K" unfolding lenK using i k by (rule rank_less)
  have Kr: "K ! ?r = es ! i"
  proof -
    have "filter ?P [0..<length es] ! ?r = i" using i k by (rule rank_nth)
    then show ?thesis using r_lt unfolding lenK by (simp add: K_def kept_indices_def)
  qed
  show "output_position cp es i < Suc (length K)"
    using r_lt by (simp add: output_position_def)
  show "output_position cp es i \<noteq> m"
  proof (cases "m < i")
    case True
    then have "m \<le> ?r" using rank_above [OF first, of i] by simp
    with True show ?thesis by (simp add: output_position_def m_def [symmetric])
  next
    case False
    with im have lt: "i < m" by simp
    then have "?r = i" using rank_below [OF first, of i] by simp
    with lt show ?thesis by (simp add: output_position_def m_def [symmetric])
  qed
  show "(take m K @ x # drop m K @ ys) ! output_position cp es i = es ! i"
  proof (cases "m < i")
    case True
    then have "m \<le> ?r" using rank_above [OF first, of i] by simp
    from insert_at_nth_high [OF this r_lt] True Kr show ?thesis
      by (simp add: output_position_def m_def [symmetric])
  next
    case False
    with im have lt: "i < m" by simp
    then have ri: "?r = i" using rank_below [OF first, of i] by simp
    then have "?r < m" using lt by simp
    from insert_at_nth_low [OF this r_lt] False Kr show ?thesis
      by (simp add: output_position_def m_def [symmetric])
  qed
qed

lemma output_position_mono:
  assumes ne: "indices_to_compact cp es \<noteq> []"
    and ij: "i < j" and ki: "i \<notin> set (indices_to_compact cp es)"
  shows "output_position cp es i < output_position cp es j"
proof -
  let ?P = "\<lambda>k. k \<notin> set (indices_to_compact cp es)"
  have "length (filter ?P [0..<i]) < length (filter ?P [0..<j])"
    using ij ki by (rule rank_less)
  then show ?thesis using ij by (simp add: output_position_def)
qed


lemma pass_summary_fields:
  assumes "indices_to_compact cp es \<noteq> []"
  shows "pass_summary c cp es =
     \<lparr>type = ''compacted'',
      user_prompt = ''[HISTORICAL CONTEXT SUMMARY]'',
      llm_response =
        create_context_summary c (map (\<lambda>i. es ! i) (indices_to_compact cp es)),
      timestamp = timestamp (es ! first_compacted cp es),
      original_user_prompt = '''',
      is_plan = False,
      is_original_request = False,
      compaction_level = 1\<rparr>"
  using assms
  by (simp add: pass_summary_def summary_entry_def Let_def first_compacted_def hd_map)

lemma pass_marker_explicit:
  "pass_marker cp es =
     (if cp \<noteq> None \<and> cp \<noteq> Some [] \<and>
         (\<forall>e \<in> set es. \<not> contains (the cp) (user_prompt e))
      then [\<lparr>type = ''current_prompt'',
             user_prompt = the cp,
             llm_response = ''[CURRENT TASK]'',
             timestamp = '''',
             original_user_prompt = '''',
             is_plan = False,
             is_original_request = False,
             compaction_level = 0\<rparr>]
      else [])"
proof -
  have "(prompt_given cp \<and> current_prompt_index cp es = - 1) =
      (cp \<noteq> None \<and> cp \<noteq> Some [] \<and> (\<forall>e \<in> set es. \<not> contains (the cp) (user_prompt e)))"
    by (cases cp)
       (auto simp: prompt_given_def falsy_def current_prompt_index_def find_first_index_none)
  then show ?thesis
    by (simp add: pass_marker_def current_prompt_entry_def)
qed

lemma compact_context_explicit:
  assumes sc: "should_compact_context mx es"
    and two: "2 \<le> length (compactable_indices cp es)"
  shows "compact_context c mx es cp =
     take (first_compacted cp es) (map (\<lambda>i. es ! i) (kept_indices cp es)) @
     [\<lparr>type = ''compacted'',
       user_prompt = ''[HISTORICAL CONTEXT SUMMARY]'',
       llm_response =
         create_context_summary c (map (\<lambda>i. es ! i) (indices_to_compact cp es)),
       timestamp = timestamp (es ! first_compacted cp es),
       original_user_prompt = '''',
       is_plan = False,
       is_original_request = False,
       compaction_level = 1\<rparr>] @
     drop (first_compacted cp es) (map (\<lambda>i. es ! i) (kept_indices cp es)) @
     (if cp \<noteq> None \<and> cp \<noteq> Some [] \<and>
         (\<forall>e \<in> set es. \<not> contains (the cp) (user_prompt e))
      then [\<lparr>type = ''current_prompt'',
             user_prompt = the cp,
             llm_response = ''[CURRENT TASK]'',
             timestamp = '''',
             original_user_prompt = '''',
             is_plan = False,
             is_original_request = False,
             compaction_level = 0\<rparr>]
      else [])"
proof -
  have ne: "indices_to_compact cp es \<noteq> []" using two by (rule to_compact_nonempty)
  show ?thesis
    by (simp only: compact_context_shape [OF sc two, of c] pass_summary_fields [OF ne, of c]
        pass_marker_explicit [of cp es] append_Cons append_Nil)
qed


section \<open>Properties of the compaction pass\<close>

lemma big_entry_should_compact: "should_compact_context 1 [big_entry]"
  by (simp add: should_compact_context_def total_tokens_def estimate_token_count_def
      threshold_tokens_def big_entry_def)

lemma big_entry_compactable: "compactable_indices (Some ''zz'') [big_entry] = [0]"
  by (simp add: compactable_indices_def latest_plan_index_def current_prompt_index_def
      prompt_given_def falsy_def big_entry_def)

text \<open>
  Claim C9. When compaction is due but fewer than two indices remain once the latest plan
  index and the current prompt index are set aside, \<open>compact_context\<close> returns its input:
  no summary is made, and no entry is added or removed (not even the current prompt
  marker).
\<close>

theorem compact_small_identity:
  assumes "should_compact_context max_context_tokens context_entries"
    and "length (compactable_indices current_user_prompt context_entries) < 2"
  shows "compact_context c max_context_tokens context_entries current_user_prompt
         = context_entries"
  using assms by (simp add: compact_context_def)

theorem compact_small_identity_witness:
  "should_compact_context 1 [big_entry] \<and>
   length (compactable_indices (Some ''zz'') [big_entry]) < 2 \<and>
   compact_context null_collab 1 [big_entry] (Some ''zz'') = [big_entry]"
  using compact_small_identity [of 1 "[big_entry]" "Some ''zz''" null_collab]
    big_entry_should_compact big_entry_compactable by simp

lemma six_should: "should_compact_context 10 six_entries"
  by code_simp

lemma six_compactable: "compactable_indices (Some ''deploy'') six_entries = [1, 2, 4, 5]"
  by code_simp

lemma six_to_compact: "indices_to_compact (Some ''deploy'') six_entries = [1, 2]"
  by code_simp

lemma six_length: "length six_entries = 6"
  by code_simp

lemma summarising_pass_positions:
  assumes "should_compact_context mx es"
    and "2 \<le> length (compactable_indices cp es)"
  shows "first_compacted cp es \<in> set (indices_to_compact cp es) \<and>
    (\<forall>i < first_compacted cp es. i \<notin> set (indices_to_compact cp es)) \<and>
    compact_context c mx es cp ! first_compacted cp es = pass_summary c cp es \<and>
    length (compact_context c mx es cp) =
      length (kept_indices cp es) + 1 + length (pass_marker cp es) \<and>
    (\<forall>i < length es. i \<notin> set (indices_to_compact cp es) \<longrightarrow>
       output_position cp es i < length (kept_indices cp es) + 1 \<and>
       output_position cp es i \<noteq> first_compacted cp es \<and>
       compact_context c mx es cp ! output_position cp es i = es ! i) \<and>
    (\<forall>i j. i < j \<and> j < length es \<and> i \<notin> set (indices_to_compact cp es) \<and>
       j \<notin> set (indices_to_compact cp es) \<longrightarrow>
       output_position cp es i < output_position cp es j)"
proof -
  let ?S = "indices_to_compact cp es"
  let ?m = "first_compacted cp es"
  let ?K = "map (\<lambda>i. es ! i) (kept_indices cp es)"
  have ne: "?S \<noteq> []" using assms(2) by (rule to_compact_nonempty)
  have shape: "compact_context c mx es cp =
      take ?m ?K @ pass_summary c cp es # drop ?m ?K @ pass_marker cp es"
    by (rule compact_context_shape [OF assms])
  have m: "?m \<in> set ?S"
    unfolding first_compacted_def by (rule to_compact_hd_first(1) [OF ne])
  have first: "\<forall>i<?m. i \<notin> set ?S"
    unfolding first_compacted_def using to_compact_hd_first(2) [OF ne] by blast
  have len: "?m < length es"
    unfolding first_compacted_def by (rule to_compact_hd_first(3) [OF ne])
  have mK: "?m \<le> length ?K"
    using rank_above [OF first, of "length es"] len by (simp add: kept_indices_def)
  have at_m: "compact_context c mx es cp ! ?m = pass_summary c cp es"
    unfolding shape by (rule insert_at_nth_mid [OF mK])
  have size: "length (compact_context c mx es cp) =
      length (kept_indices cp es) + 1 + length (pass_marker cp es)"
    unfolding shape using mK by simp
  have kept: "\<forall>i < length es. i \<notin> set ?S \<longrightarrow>
       output_position cp es i < length (kept_indices cp es) + 1 \<and>
       output_position cp es i \<noteq> ?m \<and>
       compact_context c mx es cp ! output_position cp es i = es ! i"
  proof (intro allI impI)
    fix i assume i: "i < length es" and k: "i \<notin> set ?S"
    from kept_positions [OF ne i k] show
      "output_position cp es i < length (kept_indices cp es) + 1 \<and>
       output_position cp es i \<noteq> ?m \<and>
       compact_context c mx es cp ! output_position cp es i = es ! i"
      unfolding shape by simp
  qed
  have mono: "\<forall>i j. i < j \<and> j < length es \<and> i \<notin> set ?S \<and> j \<notin> set ?S \<longrightarrow>
       output_position cp es i < output_position cp es j"
    using output_position_mono [OF ne] by blast
  from m first at_m size kept mono show ?thesis by blast
qed

text \<open>
  Claim C7. A pass that does not summarise returns its input. In a pass that summarises
  (compaction is due and at least two indices are compactable), every input entry that
  is not summarised stands in the output at \<open>output_position\<close>, which is strictly
  increasing on the kept indices, so kept entries keep their relative order; the summary
  entry stands at the index of the first (oldest) summarised entry, no kept entry is
  placed there, and the output has exactly one entry more than the kept ones (plus the
  appended marker, if any), so the summary is inserted exactly once. The last conjunct
  gives the whole output: the kept entries in input order, with one entry of type
  \<open>compacted\<close> that holds the summary of the selected entries put in at that index,
  followed by the current prompt marker exactly when a prompt is given and no entry's
  prompt contains it, and by nothing else.
\<close>

theorem compact_order_preserved:
  "(\<not> (should_compact_context mx es \<and> 2 \<le> length (compactable_indices cp es)) \<longrightarrow>
      compact_context c mx es cp = es) \<and>
   (should_compact_context mx es \<and> 2 \<le> length (compactable_indices cp es) \<longrightarrow>
    first_compacted cp es \<in> set (indices_to_compact cp es) \<and>
      (\<forall>i < first_compacted cp es. i \<notin> set (indices_to_compact cp es)) \<and>
      compact_context c mx es cp ! first_compacted cp es = pass_summary c cp es \<and>
      length (compact_context c mx es cp) =
        length (kept_indices cp es) + 1 + length (pass_marker cp es) \<and>
      (\<forall>i < length es. i \<notin> set (indices_to_compact cp es) \<longrightarrow>
         output_position cp es i < length (kept_indices cp es) + 1 \<and>
         output_position cp es i \<noteq> first_compacted cp es \<and>
         compact_context c mx es cp ! output_position cp es i = es ! i) \<and>
      (\<forall>i j. i < j \<and> j < length es \<and> i \<notin> set (indices_to_compact cp es) \<and>
         j \<notin> set (indices_to_compact cp es) \<longrightarrow>
         output_position cp es i < output_position cp es j) \<and>
      compact_context c mx es cp =
        take (first_compacted cp es) (map (\<lambda>i. es ! i) (kept_indices cp es)) @
        [\<lparr>type = ''compacted'',
          user_prompt = ''[HISTORICAL CONTEXT SUMMARY]'',
          llm_response =
            create_context_summary c (map (\<lambda>i. es ! i) (indices_to_compact cp es)),
          timestamp = timestamp (es ! first_compacted cp es),
          original_user_prompt = '''',
          is_plan = False,
          is_original_request = False,
          compaction_level = 1\<rparr>] @
        drop (first_compacted cp es) (map (\<lambda>i. es ! i) (kept_indices cp es)) @
        (if cp \<noteq> None \<and> cp \<noteq> Some [] \<and>
            (\<forall>e \<in> set es. \<not> contains (the cp) (user_prompt e))
         then [\<lparr>type = ''current_prompt'',
                user_prompt = the cp,
                llm_response = ''[CURRENT TASK]'',
                timestamp = '''',
                original_user_prompt = '''',
                is_plan = False,
                is_original_request = False,
                compaction_level = 0\<rparr>]
         else []))"
proof -
  have "\<not> (should_compact_context mx es \<and> 2 \<le> length (compactable_indices cp es)) \<Longrightarrow>
      compact_context c mx es cp = es"
    by (auto simp: compact_context_def)
  then show ?thesis
    using summarising_pass_positions [of mx es cp c] compact_context_explicit [of mx es cp c]
    by blast
qed

theorem compact_order_preserved_witness:
  "should_compact_context 10 six_entries \<and>
   2 \<le> length (compactable_indices (Some ''deploy'') six_entries) \<and>
   indices_to_compact (Some ''deploy'') six_entries = [1, 2] \<and>
   compact_context scripted_collab 10 six_entries (Some ''deploy'') ! 1 =
     pass_summary scripted_collab (Some ''deploy'') six_entries \<and>
   output_position (Some ''deploy'') six_entries 0 <
     output_position (Some ''deploy'') six_entries 4 \<and>
   compact_context scripted_collab 10 six_entries (Some ''deploy'') !
     output_position (Some ''deploy'') six_entries 0 = six_entries ! 0 \<and>
   compact_context scripted_collab 10 six_entries (Some ''deploy'') !
     output_position (Some ''deploy'') six_entries 4 = six_entries ! 4 \<and>
   compact_context scripted_collab 10 six_entries (Some ''deploy'') =
     [six_entries ! 0,
      \<lparr>type = ''compacted'', user_prompt = ''[HISTORICAL CONTEXT SUMMARY]'',
        llm_response = ''Earlier steps were done.'', timestamp = ''t1'',
        original_user_prompt = '''', is_plan = False, is_original_request = False,
        compaction_level = 1\<rparr>,
      six_entries ! 3, six_entries ! 4, six_entries ! 5] \<and>
   2 \<le> length (compactable_indices (Some ''zz'') six_entries) \<and>
   compact_context scripted_collab 10 six_entries (Some ''zz'') =
     [six_entries ! 0,
      \<lparr>type = ''compacted'', user_prompt = ''[HISTORICAL CONTEXT SUMMARY]'',
        llm_response = ''Earlier steps were done.'', timestamp = ''t1'',
        original_user_prompt = '''', is_plan = False, is_original_request = False,
        compaction_level = 1\<rparr>,
      six_entries ! 3, six_entries ! 4, six_entries ! 5,
      \<lparr>type = ''current_prompt'', user_prompt = ''zz'', llm_response = ''[CURRENT TASK]'',
        timestamp = '''', original_user_prompt = '''', is_plan = False,
        is_original_request = False, compaction_level = 0\<rparr>]"
proof -
  have two: "2 \<le> length (compactable_indices (Some ''deploy'') six_entries)"
    by (simp add: six_compactable)
  have two': "2 \<le> length (compactable_indices (Some ''zz'') six_entries)"
    by code_simp
  have fc: "first_compacted (Some ''deploy'') six_entries = 1"
    by (simp add: first_compacted_def six_to_compact)
  note t = compact_order_preserved [of 10 six_entries "Some ''deploy''" scripted_collab,
      THEN conjunct2, THEN mp, OF conjI [OF six_should two]]
  note t' = compact_order_preserved [of 10 six_entries "Some ''zz''" scripted_collab,
      THEN conjunct2, THEN mp, OF conjI [OF six_should two']]
  have k0: "(0::nat) \<notin> set (indices_to_compact (Some ''deploy'') six_entries)"
    by (simp add: six_to_compact)
  have k4: "(4::nat) \<notin> set (indices_to_compact (Some ''deploy'') six_entries)"
    by (simp add: six_to_compact)
  from t have mono: "\<forall>i j. i < j \<and> j < length six_entries \<and>
      i \<notin> set (indices_to_compact (Some ''deploy'') six_entries) \<and>
      j \<notin> set (indices_to_compact (Some ''deploy'') six_entries) \<longrightarrow>
      output_position (Some ''deploy'') six_entries i <
      output_position (Some ''deploy'') six_entries j"
    by (elim conjE)
  from t have kept: "\<forall>i < length six_entries.
      i \<notin> set (indices_to_compact (Some ''deploy'') six_entries) \<longrightarrow>
      output_position (Some ''deploy'') six_entries i <
        length (kept_indices (Some ''deploy'') six_entries) + 1 \<and>
      output_position (Some ''deploy'') six_entries i \<noteq>
        first_compacted (Some ''deploy'') six_entries \<and>
      compact_context scripted_collab 10 six_entries (Some ''deploy'') !
        output_position (Some ''deploy'') six_entries i = six_entries ! i"
    by (elim conjE)
  from t have at: "compact_context scripted_collab 10 six_entries (Some ''deploy'') !
      first_compacted (Some ''deploy'') six_entries =
      pass_summary scripted_collab (Some ''deploy'') six_entries"
    by (elim conjE)
  from mono k0 k4 have a: "output_position (Some ''deploy'') six_entries 0 <
     output_position (Some ''deploy'') six_entries 4"
    by (simp add: six_length)
  from kept k0 have b: "compact_context scripted_collab 10 six_entries (Some ''deploy'') !
     output_position (Some ''deploy'') six_entries 0 = six_entries ! 0"
    by (simp add: six_length)
  from kept k4 have c: "compact_context scripted_collab 10 six_entries (Some ''deploy'') !
     output_position (Some ''deploy'') six_entries 4 = six_entries ! 4"
    by (simp add: six_length)
  from at fc have d: "compact_context scripted_collab 10 six_entries (Some ''deploy'') ! 1 =
     pass_summary scripted_collab (Some ''deploy'') six_entries"
    by simp
  from t have shape: "compact_context scripted_collab 10 six_entries (Some ''deploy'') =
      take (first_compacted (Some ''deploy'') six_entries)
        (map (\<lambda>i. six_entries ! i) (kept_indices (Some ''deploy'') six_entries)) @
      [\<lparr>type = ''compacted'',
        user_prompt = ''[HISTORICAL CONTEXT SUMMARY]'',
        llm_response = create_context_summary scripted_collab
          (map (\<lambda>i. six_entries ! i) (indices_to_compact (Some ''deploy'') six_entries)),
        timestamp = timestamp (six_entries ! first_compacted (Some ''deploy'') six_entries),
        original_user_prompt = [],
        is_plan = False,
        is_original_request = False,
        compaction_level = 1\<rparr>] @
      drop (first_compacted (Some ''deploy'') six_entries)
        (map (\<lambda>i. six_entries ! i) (kept_indices (Some ''deploy'') six_entries)) @
      (if Some ''deploy'' \<noteq> None \<and> Some ''deploy'' \<noteq> Some [] \<and>
          (\<forall>e \<in> set six_entries. \<not> contains (the (Some ''deploy'')) (user_prompt e))
       then [\<lparr>type = ''current_prompt'',
              user_prompt = the (Some ''deploy''),
              llm_response = ''[CURRENT TASK]'',
              timestamp = [],
              original_user_prompt = [],
              is_plan = False,
              is_original_request = False,
              compaction_level = 0\<rparr>]
       else [])"
    by (elim conjE)
  from t' have shape': "compact_context scripted_collab 10 six_entries (Some ''zz'') =
      take (first_compacted (Some ''zz'') six_entries)
        (map (\<lambda>i. six_entries ! i) (kept_indices (Some ''zz'') six_entries)) @
      [\<lparr>type = ''compacted'',
        user_prompt = ''[HISTORICAL CONTEXT SUMMARY]'',
        llm_response = create_context_summary scripted_collab
          (map (\<lambda>i. six_entries ! i) (indices_to_compact (Some ''zz'') six_entries)),
        timestamp = timestamp (six_entries ! first_compacted (Some ''zz'') six_entries),
        original_user_prompt = [],
        is_plan = False,
        is_original_request = False,
        compaction_level = 1\<rparr>] @
      drop (first_compacted (Some ''zz'') six_entries)
        (map (\<lambda>i. six_entries ! i) (kept_indices (Some ''zz'') six_entries)) @
      (if Some ''zz'' \<noteq> None \<and> Some ''zz'' \<noteq> Some [] \<and>
          (\<forall>e \<in> set six_entries. \<not> contains (the (Some ''zz'')) (user_prompt e))
       then [\<lparr>type = ''current_prompt'',
              user_prompt = the (Some ''zz''),
              llm_response = ''[CURRENT TASK]'',
              timestamp = [],
              original_user_prompt = [],
              is_plan = False,
              is_original_request = False,
              compaction_level = 0\<rparr>]
       else [])"
    by (elim conjE)
  have rhs: "take (first_compacted (Some ''deploy'') six_entries)
        (map (\<lambda>i. six_entries ! i) (kept_indices (Some ''deploy'') six_entries)) @
      [\<lparr>type = ''compacted'',
        user_prompt = ''[HISTORICAL CONTEXT SUMMARY]'',
        llm_response = create_context_summary scripted_collab
          (map (\<lambda>i. six_entries ! i) (indices_to_compact (Some ''deploy'') six_entries)),
        timestamp = timestamp (six_entries ! first_compacted (Some ''deploy'') six_entries),
        original_user_prompt = '''',
        is_plan = False,
        is_original_request = False,
        compaction_level = 1\<rparr>] @
      drop (first_compacted (Some ''deploy'') six_entries)
        (map (\<lambda>i. six_entries ! i) (kept_indices (Some ''deploy'') six_entries)) @
      (if Some ''deploy'' \<noteq> None \<and> Some ''deploy'' \<noteq> Some [] \<and>
          (\<forall>e \<in> set six_entries. \<not> contains (the (Some ''deploy'')) (user_prompt e))
       then [\<lparr>type = ''current_prompt'',
              user_prompt = the (Some ''deploy''),
              llm_response = ''[CURRENT TASK]'',
              timestamp = '''',
              original_user_prompt = '''',
              is_plan = False,
              is_original_request = False,
              compaction_level = 0\<rparr>]
       else []) =
     [six_entries ! 0,
      \<lparr>type = ''compacted'', user_prompt = ''[HISTORICAL CONTEXT SUMMARY]'',
        llm_response = ''Earlier steps were done.'', timestamp = ''t1'',
        original_user_prompt = '''', is_plan = False, is_original_request = False,
        compaction_level = 1\<rparr>,
      six_entries ! 3, six_entries ! 4, six_entries ! 5]"
    by code_simp
  have rhs': "take (first_compacted (Some ''zz'') six_entries)
        (map (\<lambda>i. six_entries ! i) (kept_indices (Some ''zz'') six_entries)) @
      [\<lparr>type = ''compacted'',
        user_prompt = ''[HISTORICAL CONTEXT SUMMARY]'',
        llm_response = create_context_summary scripted_collab
          (map (\<lambda>i. six_entries ! i) (indices_to_compact (Some ''zz'') six_entries)),
        timestamp = timestamp (six_entries ! first_compacted (Some ''zz'') six_entries),
        original_user_prompt = '''',
        is_plan = False,
        is_original_request = False,
        compaction_level = 1\<rparr>] @
      drop (first_compacted (Some ''zz'') six_entries)
        (map (\<lambda>i. six_entries ! i) (kept_indices (Some ''zz'') six_entries)) @
      (if Some ''zz'' \<noteq> None \<and> Some ''zz'' \<noteq> Some [] \<and>
          (\<forall>e \<in> set six_entries. \<not> contains (the (Some ''zz'')) (user_prompt e))
       then [\<lparr>type = ''current_prompt'',
              user_prompt = the (Some ''zz''),
              llm_response = ''[CURRENT TASK]'',
              timestamp = '''',
              original_user_prompt = '''',
              is_plan = False,
              is_original_request = False,
              compaction_level = 0\<rparr>]
       else []) =
     [six_entries ! 0,
      \<lparr>type = ''compacted'', user_prompt = ''[HISTORICAL CONTEXT SUMMARY]'',
        llm_response = ''Earlier steps were done.'', timestamp = ''t1'',
        original_user_prompt = '''', is_plan = False, is_original_request = False,
        compaction_level = 1\<rparr>,
      six_entries ! 3, six_entries ! 4, six_entries ! 5,
      \<lparr>type = ''current_prompt'', user_prompt = ''zz'', llm_response = ''[CURRENT TASK]'',
        timestamp = '''', original_user_prompt = '''', is_plan = False,
        is_original_request = False, compaction_level = 0\<rparr>]"
    by code_simp
  from shape rhs have e: "compact_context scripted_collab 10 six_entries (Some ''deploy'') =
     [six_entries ! 0,
      \<lparr>type = ''compacted'', user_prompt = ''[HISTORICAL CONTEXT SUMMARY]'',
        llm_response = ''Earlier steps were done.'', timestamp = ''t1'',
        original_user_prompt = '''', is_plan = False, is_original_request = False,
        compaction_level = 1\<rparr>,
      six_entries ! 3, six_entries ! 4, six_entries ! 5]"
    by (simp only:)
  from shape' rhs' have f: "compact_context scripted_collab 10 six_entries (Some ''zz'') =
     [six_entries ! 0,
      \<lparr>type = ''compacted'', user_prompt = ''[HISTORICAL CONTEXT SUMMARY]'',
        llm_response = ''Earlier steps were done.'', timestamp = ''t1'',
        original_user_prompt = '''', is_plan = False, is_original_request = False,
        compaction_level = 1\<rparr>,
      six_entries ! 3, six_entries ! 4, six_entries ! 5,
      \<lparr>type = ''current_prompt'', user_prompt = ''zz'', llm_response = ''[CURRENT TASK]'',
        timestamp = '''', original_user_prompt = '''', is_plan = False,
        is_original_request = False, compaction_level = 0\<rparr>]"
    by (simp only:)
  from a b c d e f show ?thesis using six_should two two' six_to_compact by blast
qed

lemma contains_empty: "contains [] s"
  by (cases s) simp_all

lemma take_half_excludes_last:
  assumes "sorted xs" and "distinct xs" and "\<forall>x \<in> set xs. x < n"
  shows "\<forall>x \<in> set (take (length xs div 2) xs). Suc x < n"
proof
  fix x assume x: "x \<in> set (take (length xs div 2) xs)"
  then obtain k where k: "k < length xs div 2" "k < length xs" "xs ! k = x"
    by (auto simp: in_set_conv_nth)
  then have k2: "Suc k < length xs" by arith
  have "xs ! k \<le> xs ! Suc k" using assms(1) k2 by (simp add: sorted_iff_nth_mono)
  moreover have "xs ! k \<noteq> xs ! Suc k"
    using assms(2) k2 by (simp add: nth_eq_iff_index_eq)
  moreover have "xs ! Suc k < n" using assms(3) k2 by simp
  ultimately show "Suc x < n" using k(3) by arith
qed

lemma last_index_not_compacted:
  "i \<in> set (indices_to_compact cp es) \<Longrightarrow> Suc i < length es"
  using take_half_excludes_last [OF compactable_sorted compactable_distinct,
      of cp es "length es"] compactable_bound
  by (simp add: indices_to_compact_def Let_def)

lemma latest_plan_not_compacted:
  assumes "i < length es" and "is_plan (es ! i)"
    and "\<forall>j. i < j \<and> j < length es \<longrightarrow> \<not> is_plan (es ! j)"
  shows "i \<notin> set (indices_to_compact cp es)"
proof
  assume "i \<in> set (indices_to_compact cp es)"
  then have "i \<in> set (compactable_indices cp es)" by (rule to_compact_subset)
  then have "int i \<noteq> latest_plan_index es" by (simp add: compactable_indices_def)
  moreover have "latest_plan_index es = int i"
    unfolding latest_plan_index_def using assms by (rule find_first_index_latest)
  ultimately show False by simp
qed

lemma current_prompt_not_compacted:
  assumes "i < length es" and "contains p (user_prompt (es ! i))"
    and "\<forall>j. i < j \<and> j < length es \<longrightarrow> \<not> contains p (user_prompt (es ! j))"
  shows "i \<notin> set (indices_to_compact (Some p) es)"
proof (cases "p = []")
  case True
  have "Suc i = length es"
  proof (rule ccontr)
    assume "Suc i \<noteq> length es"
    with assms(1) have "i < Suc i \<and> Suc i < length es" by arith
    with assms(3) have "\<not> contains p (user_prompt (es ! Suc i))" by blast
    with True show False by (simp add: contains_empty)
  qed
  then show ?thesis using last_index_not_compacted [of i "Some p" es] by auto
next
  case False
  show ?thesis
  proof
    assume "i \<in> set (indices_to_compact (Some p) es)"
    then have "i \<in> set (compactable_indices (Some p) es)" by (rule to_compact_subset)
    then have "int i \<noteq> current_prompt_index (Some p) es"
      by (simp add: compactable_indices_def)
    moreover have "find_first_index (\<lambda>entry. contains p (user_prompt entry))
        (rev (enumerate 0 es)) = int i"
      using assms by (rule find_first_index_latest)
    then have "current_prompt_index (Some p) es = int i"
      using False by (simp add: current_prompt_index_def prompt_given_def falsy_def)
    ultimately show False by simp
  qed
qed

lemma kept_entry_in_output:
  assumes "i < length es" and "i \<notin> set (indices_to_compact cp es)"
  shows "es ! i \<in> set (compact_context c mx es cp)"
proof (cases "should_compact_context mx es \<and> 2 \<le> length (compactable_indices cp es)")
  case True
  have "(i, es ! i) \<in> set (enumerate 0 es)" using assms(1) by (simp add: in_set_enumerate_eq)
  then have "es ! i \<in> set (rebuild (indices_to_compact cp es) (pass_summary c cp es) False
      (enumerate 0 es))"
    using assms(2) by (rule rebuild_keeps)
  then show ?thesis using True by (simp add: compact_context_pass)
next
  case False
  then have "compact_context c mx es cp = es" by (auto simp: compact_context_def)
  then show ?thesis using assms(1) by simp
qed

text \<open>
  Claim C6. The most recent entry with \<open>is_plan\<close> true, and the most recent entry whose
  prompt contains the current prompt, are never among the entries a pass replaces by the
  summary, and both are members of the output unchanged. This holds for every entry
  sequence, every budget and every current prompt (for the empty prompt, which the
  source does not search for, the most recent entry containing it is the last entry,
  and the last entry is never in the older half).
\<close>

theorem preserved_entries_survive:
  shows "(i < length es \<and> is_plan (es ! i) \<and>
          (\<forall>j. i < j \<and> j < length es \<longrightarrow> \<not> is_plan (es ! j)) \<longrightarrow>
            i \<notin> set (indices_to_compact cp es) \<and>
            es ! i \<in> set (compact_context c mx es cp)) \<and>
         (k < length es \<and> contains p (user_prompt (es ! k)) \<and>
          (\<forall>j. k < j \<and> j < length es \<longrightarrow> \<not> contains p (user_prompt (es ! j))) \<longrightarrow>
            k \<notin> set (indices_to_compact (Some p) es) \<and>
            es ! k \<in> set (compact_context c mx es (Some p)))"
  using latest_plan_not_compacted [of i es cp] current_prompt_not_compacted [of k es p]
    kept_entry_in_output [of i es cp c mx] kept_entry_in_output [of k es "Some p" c mx]
  by blast


lemma six_plan_latest:
  "(0::nat) < length six_entries \<and> is_plan (six_entries ! 0) \<and>
   (\<forall>j. 0 < j \<and> j < length six_entries \<longrightarrow> \<not> is_plan (six_entries ! j))"
proof -
  have "\<forall>j \<in> {1..<6}. \<not> is_plan (six_entries ! j)" by code_simp
  moreover have "length six_entries = 6" by code_simp
  moreover have "is_plan (six_entries ! 0)" by code_simp
  ultimately show ?thesis by auto
qed

lemma six_prompt_latest:
  "(3::nat) < length six_entries \<and> contains ''deploy'' (user_prompt (six_entries ! 3)) \<and>
   (\<forall>j. 3 < j \<and> j < length six_entries \<longrightarrow>
      \<not> contains ''deploy'' (user_prompt (six_entries ! j)))"
proof -
  have "\<forall>j \<in> {4..<6}. \<not> contains ''deploy'' (user_prompt (six_entries ! j))" by code_simp
  moreover have "length six_entries = 6" by code_simp
  moreover have "contains ''deploy'' (user_prompt (six_entries ! 3))" by code_simp
  ultimately show ?thesis by auto
qed

theorem preserved_entries_survive_witness:
  "is_plan (six_entries ! 0) \<and>
   contains ''deploy'' (user_prompt (six_entries ! 3)) \<and>
   should_compact_context 10 six_entries \<and>
   0 \<notin> set (indices_to_compact (Some ''deploy'') six_entries) \<and>
   six_entries ! 0 \<in> set (compact_context scripted_collab 10 six_entries (Some ''deploy'')) \<and>
   3 \<notin> set (indices_to_compact (Some ''deploy'') six_entries) \<and>
   six_entries ! 3 \<in> set (compact_context scripted_collab 10 six_entries (Some ''deploy''))"
  using preserved_entries_survive [of 0 six_entries "Some ''deploy''" scripted_collab 10 3
      "''deploy''"] six_plan_latest six_prompt_latest six_should
  by blast

lemma sum_list_const_on:
  "\<forall>x \<in> set xs. f x = (c::nat) \<Longrightarrow> sum_list (map f xs) = length xs * c"
  by (induction xs) simp_all

lemma length_filter_two_out:
  assumes "p < n" and "q < n" and "p \<noteq> q"
  shows "length (filter (\<lambda>i. i \<noteq> p \<and> i \<noteq> q) [0..<n]) = n - 2"
proof -
  have "{i. i \<noteq> p \<and> i \<noteq> q} \<inter> set [0..<n] = {..<n} - {p, q}" by auto
  moreover have "card ({..<n} - {p, q}) = n - 2"
    using assms by (simp add: card_Diff_subset)
  ultimately show ?thesis by (simp add: distinct_length_filter)
qed

lemma length_kept:
  assumes "distinct S" and "\<forall>i \<in> set S. i < n"
  shows "length (filter (\<lambda>i. i \<notin> set S) [0..<n]) = n - length S"
proof -
  have "length (filter (\<lambda>i. i \<in> set S) [0..<n]) = card (set S)"
  proof -
    have "{i. i \<in> set S} \<inter> set [0..<n] = set S" using assms(2) by auto
    then show ?thesis by (simp add: distinct_length_filter)
  qed
  then have a: "length (filter (\<lambda>i. i \<in> set S) [0..<n]) = length S"
    using assms(1) by (simp add: distinct_card)
  have "length (filter (\<lambda>i. i \<in> set S) [0..<n]) + length (filter (\<lambda>i. i \<notin> set S) [0..<n]) = n"
    using sum_length_filter_compl [of "\<lambda>i. i \<in> set S" "[0..<n]"] by simp
  with a show ?thesis by simp
qed

lemma length_kept_indices:
  "length (kept_indices cp es) = length es - length (indices_to_compact cp es)"
  unfolding kept_indices_def
  using to_compact_distinct to_compact_bound by (intro length_kept) auto

lemma latest_plan_index_range:
  "latest_plan_index es = int p \<Longrightarrow> p < length es"
  unfolding latest_plan_index_def by (drule find_first_index_hit) simp

lemma current_prompt_index_range:
  "current_prompt_index cp es = int q \<Longrightarrow> q < length es"
  unfolding current_prompt_index_def
  by (auto split: if_splits dest: find_first_index_hit)

lemma compactable_length_two_preserved:
  assumes "latest_plan_index es = int p" and "current_prompt_index cp es = int q" and "p \<noteq> q"
  shows "length (compactable_indices cp es) = length es - 2"
proof -
  have "p < length es" using assms(1) by (rule latest_plan_index_range)
  moreover have "q < length es" using assms(2) by (rule current_prompt_index_range)
  ultimately show ?thesis
    using assms by (simp add: compactable_indices_def length_filter_two_out)
qed


lemma forty_length: "length forty_entries = 40" by code_simp
lemma forty_plan: "latest_plan_index forty_entries = int 10" by code_simp
lemma forty_prompt: "current_prompt_index (Some ''deploy'') forty_entries = int 21" by code_simp
lemma forty_sizes_map:
  "map (\<lambda>e. length (user_prompt e @ llm_response e)) forty_entries = replicate 40 200"
  by code_simp

lemma forty_sizes:
  "\<forall>e \<in> set forty_entries. length (user_prompt e @ llm_response e) = 200" by code_simp

lemma scripted_summary:
  "entries \<noteq> [] \<Longrightarrow> create_context_summary scripted_collab entries = ''Earlier steps were done.''"
  by (simp add: create_context_summary_def scripted_collab_def falsy_def Let_def
      summary_prompt_format_def summary_prompt_tail_def)

lemma upt_forty_filtered:
  "filter (\<lambda>i::nat. int i \<noteq> 10 \<and> int i \<noteq> 21) [0..<40] =
     [0..<10] @ [11..<21] @ [22..<40]"
  by code_simp

lemma forty_compactable:
  "compactable_indices (Some ''deploy'') forty_entries =
     [0..<10] @ [11..<21] @ [22..<40]"
  using upt_forty_filtered forty_plan forty_prompt
  by (simp add: compactable_indices_def forty_length)

lemma take_forty_half:
  "take 19 ([0..<10] @ [11..<21] @ [22..<40]) =
     [0, 1, 2, 3, 4, 5, 6, 7, 8, 9, 11, 12, 13, 14, 15, 16, 17, 18, 19 :: nat]"
  by code_simp

lemma forty_selected:
  "indices_to_compact (Some ''deploy'') forty_entries =
     [0, 1, 2, 3, 4, 5, 6, 7, 8, 9, 11, 12, 13, 14, 15, 16, 17, 18, 19]"
  using take_forty_half by (simp add: indices_to_compact_def Let_def forty_compactable)

lemma forty_first: "first_compacted (Some ''deploy'') forty_entries = 0"
  by (simp add: first_compacted_def forty_selected)

lemma upt_forty_kept:
  "filter (\<lambda>i::nat. i \<notin> set [0, 1, 2, 3, 4, 5, 6, 7, 8, 9, 11, 12, 13, 14, 15, 16, 17, 18, 19])
     [0..<40] =
     10 # [20..<40]"
  by code_simp

lemma forty_kept:
  "kept_indices (Some ''deploy'') forty_entries =
     10 # [20..<40]"
  using upt_forty_kept by (simp only: kept_indices_def forty_selected forty_length)

lemma forty_stamp: "timestamp (forty_entries ! 0) = ''t''"
  by code_simp

text \<open>
  Claim C8. With a budget of 2000 tokens (threshold 1500), forty entries of 200 characters
  each, and two distinct preserved indices (the latest plan entry and the entry matching
  the current prompt): compaction is due, 38 indices are compactable, the pass summarises
  exactly the 19 oldest of them, nothing is appended, 21 entries are kept and the output
  has exactly 22 entries, the summary standing at the index of the oldest summarised
  entry. The last conjunct gives the entry that stands for the 19: type \<open>compacted\<close>,
  the fixed prompt, the summary of those 19 entries as response, level 1.
\<close>

theorem scenario_forty_entries:
  assumes "length es = 40"
    and "\<forall>e \<in> set es. length (user_prompt e @ llm_response e) = 200"
    and "latest_plan_index es = int p"
    and "current_prompt_index cp es = int q"
    and "p \<noteq> q"
  shows "threshold_tokens 2000 = 1500 \<and> total_tokens es = 2000 \<and>
    should_compact_context 2000 es \<and>
    length (compactable_indices cp es) = 38 \<and>
    indices_to_compact cp es = take 19 (compactable_indices cp es) \<and>
    length (indices_to_compact cp es) = 19 \<and>
    pass_marker cp es = [] \<and>
    length (kept_indices cp es) = 21 \<and>
    length (compact_context c 2000 es cp) = 22 \<and>
    compact_context c 2000 es cp =
      take (first_compacted cp es) (map (\<lambda>i. es ! i) (kept_indices cp es)) @
      pass_summary c cp es #
      drop (first_compacted cp es) (map (\<lambda>i. es ! i) (kept_indices cp es)) \<and>
    compact_context c 2000 es cp =
      take (first_compacted cp es) (map (\<lambda>i. es ! i) (kept_indices cp es)) @
      [\<lparr>type = ''compacted'',
        user_prompt = ''[HISTORICAL CONTEXT SUMMARY]'',
        llm_response =
          create_context_summary c (map (\<lambda>i. es ! i) (take 19 (compactable_indices cp es))),
        timestamp = timestamp (es ! first_compacted cp es),
        original_user_prompt = [],
        is_plan = False,
        is_original_request = False,
        compaction_level = 1\<rparr>] @
      drop (first_compacted cp es) (map (\<lambda>i. es ! i) (kept_indices cp es))"
proof -
  have thr: "threshold_tokens 2000 = 1500" by (simp add: threshold_tokens_def)
  have "\<forall>e \<in> set es. estimate_token_count (user_prompt e @ llm_response e) = 50"
    using assms(2) by (simp add: estimate_token_count_def)
  then have "total_tokens es = length es * 50"
    unfolding total_tokens_def by (rule sum_list_const_on)
  then have tot: "total_tokens es = 2000" using assms(1) by simp
  have sc: "should_compact_context 2000 es"
    by (simp add: should_compact_context_def thr tot)
  have comp: "length (compactable_indices cp es) = 38"
    using compactable_length_two_preserved [OF assms(3,4,5)] assms(1) by simp
  then have two: "2 \<le> length (compactable_indices cp es)" by simp
  have sel: "indices_to_compact cp es = take 19 (compactable_indices cp es)"
    by (simp add: indices_to_compact_def Let_def comp)
  have nsel: "length (indices_to_compact cp es) = 19"
    by (simp add: to_compact_length comp)
  have mark: "pass_marker cp es = []"
    using assms(4) by (simp add: pass_marker_def)
  have kept: "length (kept_indices cp es) = 21"
    by (simp add: length_kept_indices nsel assms(1))
  have shape: "compact_context c 2000 es cp =
      take (first_compacted cp es) (map (\<lambda>i. es ! i) (kept_indices cp es)) @
      pass_summary c cp es #
      drop (first_compacted cp es) (map (\<lambda>i. es ! i) (kept_indices cp es))"
    using compact_context_shape [OF sc two, of c] by (simp add: mark)
  have nocond: "\<not> (cp \<noteq> None \<and> cp \<noteq> Some [] \<and>
      (\<forall>e \<in> set es. \<not> contains (the cp) (user_prompt e)))"
    using pass_marker_explicit [of cp es] mark by (auto split: if_splits)
  have explicit: "compact_context c 2000 es cp =
      take (first_compacted cp es) (map (\<lambda>i. es ! i) (kept_indices cp es)) @
      [\<lparr>type = ''compacted'',
        user_prompt = ''[HISTORICAL CONTEXT SUMMARY]'',
        llm_response =
          create_context_summary c (map (\<lambda>i. es ! i) (take 19 (compactable_indices cp es))),
        timestamp = timestamp (es ! first_compacted cp es),
        original_user_prompt = [],
        is_plan = False,
        is_original_request = False,
        compaction_level = 1\<rparr>] @
      drop (first_compacted cp es) (map (\<lambda>i. es ! i) (kept_indices cp es))"
    using compact_context_explicit [OF sc two, of c] nocond
    by (simp only: sel if_False append_Nil2)
  have "length (compact_context c 2000 es cp) = 22"
    by (subst shape) (simp add: kept)
  with thr tot sc comp sel nsel mark kept shape explicit show ?thesis by blast
qed

theorem scenario_forty_entries_witness:
  "length forty_entries = 40 \<and>
   map (\<lambda>e. length (user_prompt e @ llm_response e)) forty_entries = replicate 40 200 \<and>
   latest_plan_index forty_entries = 10 \<and>
   current_prompt_index (Some ''deploy'') forty_entries = 21 \<and>
   should_compact_context 2000 forty_entries \<and>
   length (indices_to_compact (Some ''deploy'') forty_entries) = 19 \<and>
   length (compact_context scripted_collab 2000 forty_entries (Some ''deploy'')) = 22 \<and>
   indices_to_compact (Some ''deploy'') forty_entries =
     [0, 1, 2, 3, 4, 5, 6, 7, 8, 9, 11, 12, 13, 14, 15, 16, 17, 18, 19] \<and>
   compact_context scripted_collab 2000 forty_entries (Some ''deploy'') ! 0 =
     \<lparr>type = ''compacted'', user_prompt = ''[HISTORICAL CONTEXT SUMMARY]'',
      llm_response = ''Earlier steps were done.'', timestamp = ''t'',
      original_user_prompt = [], is_plan = False, is_original_request = False,
      compaction_level = 1\<rparr> \<and>
   compact_context scripted_collab 2000 forty_entries (Some ''deploy'') ! 1 =
     forty_entries ! 10"
proof -
  have ne: "(10::nat) \<noteq> 21" by simp
  note t = scenario_forty_entries [OF forty_length forty_sizes forty_plan forty_prompt ne,
      of scripted_collab]
  from t have len: "length (indices_to_compact (Some ''deploy'') forty_entries) = 19"
    by (elim conjE)
  from t have sc: "should_compact_context 2000 forty_entries" by (elim conjE)
  from t have out: "length (compact_context scripted_collab 2000 forty_entries
      (Some ''deploy'')) = 22"
    by (elim conjE)
  from t have explicit: "compact_context scripted_collab 2000 forty_entries (Some ''deploy'') =
      take (first_compacted (Some ''deploy'') forty_entries)
        (map (\<lambda>i. forty_entries ! i) (kept_indices (Some ''deploy'') forty_entries)) @
      [\<lparr>type = ''compacted'',
        user_prompt = ''[HISTORICAL CONTEXT SUMMARY]'',
        llm_response = create_context_summary scripted_collab
          (map (\<lambda>i. forty_entries ! i)
            (take 19 (compactable_indices (Some ''deploy'') forty_entries))),
        timestamp = timestamp (forty_entries ! first_compacted (Some ''deploy'') forty_entries),
        original_user_prompt = [],
        is_plan = False,
        is_original_request = False,
        compaction_level = 1\<rparr>] @
      drop (first_compacted (Some ''deploy'') forty_entries)
        (map (\<lambda>i. forty_entries ! i) (kept_indices (Some ''deploy'') forty_entries))"
    by (elim conjE)
  have summ: "create_context_summary scripted_collab
      (map (\<lambda>i. forty_entries ! i)
        (take 19 (compactable_indices (Some ''deploy'') forty_entries))) =
      ''Earlier steps were done.''"
    using take_forty_half by (intro scripted_summary) (simp add: forty_compactable)
  from explicit have whole:
    "compact_context scripted_collab 2000 forty_entries (Some ''deploy'') =
      [\<lparr>type = ''compacted'',
        user_prompt = ''[HISTORICAL CONTEXT SUMMARY]'',
        llm_response = ''Earlier steps were done.'',
        timestamp = ''t'',
        original_user_prompt = [],
        is_plan = False,
        is_original_request = False,
        compaction_level = 1\<rparr>] @
      map (\<lambda>i. forty_entries ! i) (10 # [20..<40])"
    by (simp only: forty_first forty_kept forty_stamp summ take_0 drop_0 append_Nil)
  have e0: "compact_context scripted_collab 2000 forty_entries (Some ''deploy'') ! 0 =
     \<lparr>type = ''compacted'', user_prompt = ''[HISTORICAL CONTEXT SUMMARY]'',
      llm_response = ''Earlier steps were done.'', timestamp = ''t'',
      original_user_prompt = [], is_plan = False, is_original_request = False,
      compaction_level = 1\<rparr>"
    by (subst whole) simp
  have e1: "compact_context scripted_collab 2000 forty_entries (Some ''deploy'') ! 1 =
      forty_entries ! 10"
    by (subst whole) simp
  have p: "latest_plan_index forty_entries = 10" using forty_plan by simp
  have q: "current_prompt_index (Some ''deploy'') forty_entries = 21" using forty_prompt by simp
  from forty_length forty_sizes_map p q sc len out forty_selected e0 e1
  show ?thesis by (intro conjI)
qed


lemma total_tokens_append: "total_tokens (xs @ ys) = total_tokens xs + total_tokens ys"
  by (simp add: total_tokens_def)

lemma total_tokens_Cons: "total_tokens (x # xs) = total_tokens [x] + total_tokens xs"
  by (simp add: total_tokens_def)

lemma total_tokens_take_drop: "total_tokens (take m xs) + total_tokens (drop m xs) = total_tokens xs"
  using total_tokens_append [of "take m xs" "drop m xs"] by simp

lemma sum_list_filter_split:
  "sum_list (map f (filter P xs)) + sum_list (map f (filter (\<lambda>x. \<not> P x) xs)) =
     (sum_list (map f xs) :: nat)"
  by (induction xs) simp_all

lemma filter_selected:
  assumes "sorted S" and "distinct S" and "\<forall>i \<in> set S. i < n"
  shows "filter (\<lambda>i. i \<in> set S) [0..<n] = S"
proof (rule sorted_distinct_set_unique)
  show "sorted (filter (\<lambda>i. i \<in> set S) [0..<n])" by (simp add: sorted_wrt_filter)
  show "distinct (filter (\<lambda>i. i \<in> set S) [0..<n])" by simp
  show "sorted S" by (rule assms(1))
  show "distinct S" by (rule assms(2))
  show "set (filter (\<lambda>i. i \<in> set S) [0..<n]) = set S" using assms(3) by auto
qed

lemma total_tokens_partition:
  "total_tokens (map (\<lambda>i. es ! i) (indices_to_compact cp es)) +
   total_tokens (map (\<lambda>i. es ! i) (kept_indices cp es)) = total_tokens es"
proof -
  let ?S = "indices_to_compact cp es"
  let ?f = "\<lambda>i. estimate_token_count (user_prompt (es ! i) @ llm_response (es ! i))"
  have sel: "filter (\<lambda>i. i \<in> set ?S) [0..<length es] = ?S"
    using to_compact_sorted to_compact_distinct to_compact_bound
    by (intro filter_selected) auto
  have "sum_list (map ?f (filter (\<lambda>i. i \<in> set ?S) [0..<length es])) +
        sum_list (map ?f (filter (\<lambda>i. \<not> i \<in> set ?S) [0..<length es])) =
        sum_list (map ?f [0..<length es])"
    by (rule sum_list_filter_split)
  moreover have "map ?f [0..<length es] =
      map (\<lambda>entry. estimate_token_count (user_prompt entry @ llm_response entry)) es"
    by (intro nth_equalityI) simp_all
  ultimately show ?thesis
    by (simp add: total_tokens_def kept_indices_def sel comp_def)
qed

lemma total_tokens_pass:
  assumes "should_compact_context mx es" and "2 \<le> length (compactable_indices cp es)"
  shows "total_tokens (compact_context c mx es cp) +
         total_tokens (map (\<lambda>i. es ! i) (indices_to_compact cp es)) =
         total_tokens es + total_tokens [pass_summary c cp es] + total_tokens (pass_marker cp es)"
proof -
  let ?K = "map (\<lambda>i. es ! i) (kept_indices cp es)"
  let ?m = "first_compacted cp es"
  have "total_tokens (compact_context c mx es cp) =
      total_tokens (take ?m ?K) + (total_tokens [pass_summary c cp es] +
        (total_tokens (drop ?m ?K) + total_tokens (pass_marker cp es)))"
    by (subst compact_context_shape [OF assms])
       (simp only: total_tokens_append total_tokens_Cons [of _ "drop ?m ?K @ pass_marker cp es"])
  also have "\<dots> = total_tokens ?K + total_tokens [pass_summary c cp es] +
      total_tokens (pass_marker cp es)"
    using total_tokens_take_drop [of ?m ?K] by simp
  finally show ?thesis using total_tokens_partition [of es cp] by simp
qed


text \<open>
  Claim C5, as stated, fails: the summary text is whatever the model returns, and nothing
  in the pass bounds its length. On \<open>six_entries\<close> with a budget of 10 tokens the pass
  replaces two entries worth 10 tokens by a summary entry worth 13, and the total goes
  from 32 to 35.
\<close>

theorem compaction_can_grow:
  "should_compact_context 10 six_entries \<and>
   total_tokens six_entries = 32 \<and>
   total_tokens (compact_context scripted_collab 10 six_entries (Some ''deploy'')) = 35 \<and>
   \<not> total_tokens (compact_context scripted_collab 10 six_entries (Some ''deploy''))
       \<le> total_tokens six_entries"
  by code_simp

text \<open>
  Claim C5, amended. Whenever compaction is due, the output's total estimate is at most
  the input's provided the estimate of the summary entry (the fixed prompt
  \<open>[HISTORICAL CONTEXT SUMMARY]\<close> followed by the summary text), plus that of the
  current prompt marker when one is appended, does not exceed the total estimate of the
  entries the summary replaces.
\<close>

theorem compaction_size_bound:
  assumes "should_compact_context mx es"
    and "estimate_token_count (''[HISTORICAL CONTEXT SUMMARY]'' @
           create_context_summary c (map (\<lambda>i. es ! i) (indices_to_compact cp es))) +
         total_tokens (pass_marker cp es)
         \<le> total_tokens (map (\<lambda>i. es ! i) (indices_to_compact cp es))"
  shows "total_tokens (compact_context c mx es cp) \<le> total_tokens es"
proof (cases "2 \<le> length (compactable_indices cp es)")
  case True
  have "total_tokens [pass_summary c cp es] =
      estimate_token_count (''[HISTORICAL CONTEXT SUMMARY]'' @
        create_context_summary c (map (\<lambda>i. es ! i) (indices_to_compact cp es)))"
    by (simp add: total_tokens_def pass_summary_def summary_entry_def Let_def)
  with assms(2) total_tokens_pass [OF assms(1) True, of c] show ?thesis by arith
next
  case False
  then have "compact_context c mx es cp = es" by (simp add: compact_context_def)
  then show ?thesis by simp
qed

theorem compaction_size_bound_witness:
  "should_compact_context 10 six_entries \<and>
   estimate_token_count (''[HISTORICAL CONTEXT SUMMARY]'' @
       create_context_summary terse_collab
         (map (\<lambda>i. six_entries ! i) (indices_to_compact (Some ''deploy'') six_entries))) +
     total_tokens (pass_marker (Some ''deploy'') six_entries)
     \<le> total_tokens (map (\<lambda>i. six_entries ! i) (indices_to_compact (Some ''deploy'') six_entries)) \<and>
   total_tokens (compact_context terse_collab 10 six_entries (Some ''deploy''))
     \<le> total_tokens six_entries"
proof -
  have h: "estimate_token_count (''[HISTORICAL CONTEXT SUMMARY]'' @
       create_context_summary terse_collab
         (map (\<lambda>i. six_entries ! i) (indices_to_compact (Some ''deploy'') six_entries))) +
     total_tokens (pass_marker (Some ''deploy'') six_entries)
     \<le> total_tokens (map (\<lambda>i. six_entries ! i) (indices_to_compact (Some ''deploy'') six_entries))"
    by code_simp
  from compaction_size_bound [OF six_should h] six_should h show ?thesis by blast
qed


text \<open>
  Claim C3, as stated, fails for the compaction pass. The pass takes its summary from
  \<open>create_context_summary\<close>; when payload preparation fails the summary is a placeholder
  naming only the number of entries, the two summarised entries are gone from the
  output, and their text (\<open>a.txt\<close> for instance) is nowhere in the entry that
  replaced them.
\<close>

theorem summary_failure_loses_text:
  "falsy (prepare_payload null_collab ''simple''
      (summary_prompt_format (context_text [six_entries ! 1, six_entries ! 2]))) \<and>
   indices_to_compact (Some ''deploy'') six_entries = [1, 2] \<and>
   llm_response (compact_context null_collab 10 six_entries (Some ''deploy'') ! 1) =
     ''[Summary of 2 historical entries - LLM unavailable]'' \<and>
   llm_response (compact_context null_collab 10 six_entries (Some ''deploy'') ! 1) \<noteq>
     context_text [six_entries ! 1, six_entries ! 2] \<and>
   \<not> contains ''a.txt''
       (llm_response (compact_context null_collab 10 six_entries (Some ''deploy'') ! 1)) \<and>
   six_entries ! 1 \<notin> set (compact_context null_collab 10 six_entries (Some ''deploy'')) \<and>
   six_entries ! 2 \<notin> set (compact_context null_collab 10 six_entries (Some ''deploy''))"
  by code_simp

text \<open>
  Claim C3, amended. For every non-empty list of entries, when the model call fails
  (payload preparation fails, or the model returns no response):
  \<open>compact_context_segment\<close> returns the original uncompacted text of the entries, at
  either compaction level; \<open>create_context_summary\<close>, which the compaction pass uses,
  returns instead a placeholder that names the number of entries, one wording for each
  kind of failure; and a pass that summarises puts that result, as the response of its
  single summary entry, at the index of the first summarised entry.
\<close>

theorem model_failure_results:
  assumes "entries \<noteq> []"
  shows "(falsy (prepare_payload c ''simple''
            (if level = 1 then compact_prompt_format (context_text entries)
             else very_compact_prompt_format (context_text entries))) \<or>
          falsy (send_request c (the (prepare_payload c ''simple''
            (if level = 1 then compact_prompt_format (context_text entries)
             else very_compact_prompt_format (context_text entries)))))
          \<longrightarrow> compact_context_segment c entries level = context_text entries) \<and>
         (falsy (prepare_payload c ''simple'' (summary_prompt_format (context_text entries)))
          \<longrightarrow> create_context_summary c entries =
               ''[Summary of '' @ str_nat (length entries) @
               '' historical entries - LLM unavailable]'') \<and>
         (\<not> falsy (prepare_payload c ''simple'' (summary_prompt_format (context_text entries))) \<and>
          falsy (send_request c (the (prepare_payload c ''simple''
            (summary_prompt_format (context_text entries)))))
          \<longrightarrow> create_context_summary c entries =
               ''[Summary of '' @ str_nat (length entries) @
               '' historical entries - LLM failed]'') \<and>
         (should_compact_context mx es \<and> 2 \<le> length (compactable_indices cp es) \<and>
          entries = map (\<lambda>i. es ! i) (indices_to_compact cp es)
          \<longrightarrow> llm_response (compact_context c mx es cp ! first_compacted cp es) =
               create_context_summary c entries)"
proof -
  have seg: "falsy (prepare_payload c ''simple''
            (if level = 1 then compact_prompt_format (context_text entries)
             else very_compact_prompt_format (context_text entries))) \<or>
          falsy (send_request c (the (prepare_payload c ''simple''
            (if level = 1 then compact_prompt_format (context_text entries)
             else very_compact_prompt_format (context_text entries)))))
          \<longrightarrow> compact_context_segment c entries level = context_text entries"
    using assms by (simp add: compact_context_segment_def Let_def)
  have s1: "falsy (prepare_payload c ''simple'' (summary_prompt_format (context_text entries)))
          \<longrightarrow> create_context_summary c entries =
               ''[Summary of '' @ str_nat (length entries) @
               '' historical entries - LLM unavailable]''"
    using assms by (simp add: create_context_summary_def Let_def)
  have s2: "\<not> falsy (prepare_payload c ''simple'' (summary_prompt_format (context_text entries))) \<and>
          falsy (send_request c (the (prepare_payload c ''simple''
            (summary_prompt_format (context_text entries)))))
          \<longrightarrow> create_context_summary c entries =
               ''[Summary of '' @ str_nat (length entries) @
               '' historical entries - LLM failed]''"
    using assms by (simp add: create_context_summary_def Let_def)
  have pass: "should_compact_context mx es \<and> 2 \<le> length (compactable_indices cp es) \<and>
          entries = map (\<lambda>i. es ! i) (indices_to_compact cp es)
          \<longrightarrow> llm_response (compact_context c mx es cp ! first_compacted cp es) =
               create_context_summary c entries"
  proof (intro impI, elim conjE)
    assume sc: "should_compact_context mx es" and two: "2 \<le> length (compactable_indices cp es)"
      and e: "entries = map (\<lambda>i. es ! i) (indices_to_compact cp es)"
    let ?S = "indices_to_compact cp es"
    let ?m = "first_compacted cp es"
    let ?K = "map (\<lambda>i. es ! i) (kept_indices cp es)"
    have ne: "?S \<noteq> []" using two by (rule to_compact_nonempty)
    have first: "\<forall>i<?m. i \<notin> set ?S"
      unfolding first_compacted_def using to_compact_hd_first(2) [OF ne] by blast
    have len: "?m < length es"
      unfolding first_compacted_def by (rule to_compact_hd_first(3) [OF ne])
    have mK: "?m \<le> length ?K"
      using rank_above [OF first, of "length es"] len by (simp add: kept_indices_def)
    have "compact_context c mx es cp ! ?m = pass_summary c cp es"
      unfolding compact_context_shape [OF sc two] by (rule insert_at_nth_mid [OF mK])
    then show "llm_response (compact_context c mx es cp ! ?m) = create_context_summary c entries"
      by (simp add: pass_summary_def summary_entry_def Let_def e)
  qed
  from seg s1 s2 pass show ?thesis by blast
qed

theorem model_failure_results_witness:
  "compact_context_segment null_collab [six_entries ! 1, six_entries ! 2] 1 =
     context_text [six_entries ! 1, six_entries ! 2] \<and>
   compact_context_segment mute_collab [six_entries ! 1, six_entries ! 2] 2 =
     context_text [six_entries ! 1, six_entries ! 2] \<and>
   create_context_summary null_collab [six_entries ! 1, six_entries ! 2] =
     ''[Summary of 2 historical entries - LLM unavailable]'' \<and>
   create_context_summary mute_collab [six_entries ! 1, six_entries ! 2] =
     ''[Summary of 2 historical entries - LLM failed]'' \<and>
   llm_response (compact_context null_collab 10 six_entries (Some ''deploy'') ! 1) =
     ''[Summary of 2 historical entries - LLM unavailable]''"
proof -
  let ?E = "[six_entries ! 1, six_entries ! 2]"
  have ne: "?E \<noteq> []" by simp
  have two: "2 \<le> length (compactable_indices (Some ''deploy'') six_entries)"
    by (simp add: six_compactable)
  have sel: "?E = map (\<lambda>i. six_entries ! i) (indices_to_compact (Some ''deploy'') six_entries)"
    by (simp add: six_to_compact)
  have fc: "first_compacted (Some ''deploy'') six_entries = 1"
    by (simp add: first_compacted_def six_to_compact)
  have n2: "str_nat (length ?E) = ''2''" by code_simp
  have f1: "\<And>phase prompt. falsy (prepare_payload null_collab phase prompt)"
    by (simp add: null_collab_def falsy_def)
  have f2: "\<And>phase prompt. \<not> falsy (prepare_payload mute_collab phase (summary_prompt_format prompt))"
    by (simp add: mute_collab_def falsy_def summary_prompt_format_def summary_prompt_head_def)
  have f3: "\<And>payload. falsy (send_request mute_collab payload)"
    by (simp add: mute_collab_def falsy_def)
  note a = model_failure_results [OF ne, of null_collab 1 10 six_entries "Some ''deploy''"]
  note b = model_failure_results [OF ne, of mute_collab 2 10 six_entries "Some ''deploy''"]
  from a f1 have a1: "compact_context_segment null_collab ?E 1 = context_text ?E" by blast
  from b f3 have b1: "compact_context_segment mute_collab ?E 2 = context_text ?E" by blast
  from a f1 n2 have a2: "create_context_summary null_collab ?E =
     ''[Summary of 2 historical entries - LLM unavailable]''" by simp
  from b f2 f3 n2 have b2: "create_context_summary mute_collab ?E =
     ''[Summary of 2 historical entries - LLM failed]''" by simp
  from a six_should two sel fc have "llm_response (compact_context null_collab 10 six_entries (Some ''deploy'') ! 1) =
     create_context_summary null_collab ?E" by simp
  with a1 b1 a2 b2 show ?thesis by simp
qed

section \<open>Properties of the session store\<close>

lemma header_not_plan: "\<not> contains ''plan'' (lower ''[HISTORICAL CONTEXT SUMMARY]'')"
  by code_simp

lemma default_not_checklist: "\<not> contains ''checklist'' (lower ''Error occurred'')"
  by code_simp

text \<open>
  Claim C2 (not met by the code). Saving a compacted summary entry and parsing the store
  again for the same session key does not give the entry back: the parser reads
  \<open>llm_full_response\<close> only for entries of type \<open>success\<close>, so for every summary text
  the re-loaded entry has the response \<open>Error occurred\<close>, and its compaction level is
  0; only the type, the prompt and the timestamp come back.
\<close>

theorem compacted_roundtrip_loses_summary:
  "save_compacted_context (Content data) None
     [\<lparr>type = ''compacted'', user_prompt = ''[HISTORICAL CONTEXT SUMMARY]'',
       llm_response = summary_text, timestamp = ts, original_user_prompt = '''',
       is_plan = False, is_original_request = False, compaction_level = 1\<rparr>] pwd_hash
   = (True, Content (data(pwd_hash \<mapsto>
       [\<lparr>json_type = Some ''compacted'',
         json_user_prompt = Some ''[HISTORICAL CONTEXT SUMMARY]'',
         json_llm_full_response = Some (ResponseDict [(''response'', summary_text)]),
         json_llm_error_message = None, json_timestamp = Some ts,
         json_compaction_level = Some 1\<rparr>]))) \<and>
   parse_context_entries repr_dict
     (data(pwd_hash \<mapsto>
       [\<lparr>json_type = Some ''compacted'',
         json_user_prompt = Some ''[HISTORICAL CONTEXT SUMMARY]'',
         json_llm_full_response = Some (ResponseDict [(''response'', summary_text)]),
         json_llm_error_message = None, json_timestamp = Some ts,
         json_compaction_level = Some 1\<rparr>])) pwd_hash
   = [\<lparr>type = ''compacted'', user_prompt = ''[HISTORICAL CONTEXT SUMMARY]'',
       llm_response = ''Error occurred'', timestamp = ts, original_user_prompt = '''',
       is_plan = False, is_original_request = True, compaction_level = 0\<rparr>]"
  using header_not_plan default_not_checklist
  by (simp add: save_compacted_context_def json_entry_def parse_context_entries_def
      parse_entry_def get_or_def Let_def)


section \<open>Properties of the orchestrator\<close>

lemma lower_n: "lower ''n'' \<noteq> ''y''"
  by code_simp

text \<open>
  Claim C1, as stated, fails. In normal mode, with the command \<open>ls\<close> allowed and the
  user answering \<open>n\<close> at the confirmation prompt, the status returned is
  \<open>IN_PROGRESS\<close>, not \<open>CANCELLED\<close>: the refusal is recorded as the result of the
  action, nothing is executed, and the action phase hands the same status on.
\<close>

theorem declined_confirmation_not_cancelled:
  "operation_mode normal_env = ''normal'' \<and>
   fst (check_command_permission normal_env ''ls'' ''normal'') \<and>
   lower (confirmation_line normal_env) \<noteq> ''y'' \<and>
   fst (handle_command_suggestion normal_env ''ls'' initial_state) = IN_PROGRESS \<and>
   fst (handle_command_suggestion normal_env ''ls'' initial_state) \<noteq> CANCELLED \<and>
   fst (action_loop (table_collab [(''do it'', ''<command>ls</command>'')]) normal_env 1 0
          ''do it'' initial_state []) = Some IN_PROGRESS"
  by code_simp

text \<open>
  Claim C1, amended. In normal mode, when the user declines the confirmation for an
  allowed suggested command (answers anything whose lower case is not \<open>y\<close>), for every
  command other than the completion signal and every task state: the command is not
  executed, the state records \<open>Command '<command>' cancelled by user\<close> and
  \<open>User cancelled at confirmation\<close> as the action and its result, and the status stays
  \<open>IN_PROGRESS\<close>, which is not terminal. The action phase, when the model's response
  holds that command in its \<open><command>\<close> block, returns the same status, with the same
  two records in the state and nothing executed, at every attempt.
\<close>

theorem declined_confirmation_continues:
  assumes "command \<noteq> ''report_task_completion''"
    and "operation_mode env = ''normal''"
    and "fst (check_command_permission env command ''normal'')"
    and "lower (confirmation_line env) \<noteq> ''y''"
  shows "handle_command_suggestion env command state =
     (IN_PROGRESS,
      state\<lparr>last_action_taken := ''Command '' @ sq @ command @ sq @ '' cancelled by user'',
            last_action_result := ''User cancelled at confirmation''\<rparr>,
      None) \<and>
     (\<not> falsy (prepare_payload c ''action'' context) \<and>
      send_request c (the (prepare_payload c ''action'' context)) = Some response \<and>
      response \<noteq> [] \<and>
      parse_suggested_command response = Some command \<and>
      command \<noteq> [] \<longrightarrow>
      action_loop c env (Suc fuel) attempt context state log =
        (Some IN_PROGRESS,
         state\<lparr>actor_summary := parse_llm_summary response,
               last_action_taken := ''Command '' @ sq @ command @ sq @ '' cancelled by user'',
               last_action_result := ''User cancelled at confirmation''\<rparr>,
         None,
         log @ [(''Actor Input (Attempt '' @ str_nat (attempt + 1) @ ''): '' @ context,
                 response)]))"
proof -
  have h: "\<And>st. handle_command_suggestion env command st =
     (IN_PROGRESS,
      st\<lparr>last_action_taken := ''Command '' @ sq @ command @ sq @ '' cancelled by user'',
         last_action_result := ''User cancelled at confirmation''\<rparr>,
      None)"
    using assms
    by (simp add: handle_command_suggestion_def confirm_and_run_def Let_def)
  have "\<not> falsy (prepare_payload c ''action'' context) \<and>
      send_request c (the (prepare_payload c ''action'' context)) = Some response \<and>
      response \<noteq> [] \<and>
      parse_suggested_command response = Some command \<and>
      command \<noteq> [] \<longrightarrow>
      action_loop c env (Suc fuel) attempt context state log =
        (Some IN_PROGRESS,
         state\<lparr>actor_summary := parse_llm_summary response,
               last_action_taken := ''Command '' @ sq @ command @ sq @ '' cancelled by user'',
               last_action_result := ''User cancelled at confirmation''\<rparr>,
         None,
         log @ [(''Actor Input (Attempt '' @ str_nat (attempt + 1) @ ''): '' @ context,
                 response)])"
    by (simp add: Let_def falsy_def h)
  with h [of state] show ?thesis by blast
qed

theorem declined_confirmation_continues_witness:
  "''ls'' \<noteq> ''report_task_completion'' \<and>
   operation_mode normal_env = ''normal'' \<and>
   fst (check_command_permission normal_env ''ls'' ''normal'') \<and>
   lower (confirmation_line normal_env) \<noteq> ''y'' \<and>
   handle_command_suggestion normal_env ''ls'' initial_state =
     (IN_PROGRESS,
      initial_state\<lparr>last_action_taken := ''Command '' @ sq @ ''ls'' @ sq @ '' cancelled by user'',
            last_action_result := ''User cancelled at confirmation''\<rparr>,
      None) \<and>
   parse_suggested_command ''<command>ls</command>'' = Some ''ls'' \<and>
   action_loop (table_collab [(''do it'', ''<command>ls</command>'')]) normal_env 1 0
       ''do it'' initial_state [] =
     (Some IN_PROGRESS,
      initial_state\<lparr>last_action_taken := ''Command '' @ sq @ ''ls'' @ sq @ '' cancelled by user'',
            last_action_result := ''User cancelled at confirmation''\<rparr>,
      None,
      [(''Actor Input (Attempt 1): do it'', ''<command>ls</command>'')])"
proof -
  have a: "''ls'' \<noteq> ''report_task_completion''" by simp
  have b: "operation_mode normal_env = ''normal''" by (simp add: normal_env_def)
  have c: "fst (check_command_permission normal_env ''ls'' ''normal'')"
    by (simp add: normal_env_def)
  have d: "lower (confirmation_line normal_env) \<noteq> ''y''"
    using lower_n by (simp add: normal_env_def)
  have p1: "\<not> falsy (prepare_payload (table_collab [(''do it'', ''<command>ls</command>'')])
      ''action'' ''do it'')"
    by code_simp
  have p2: "send_request (table_collab [(''do it'', ''<command>ls</command>'')])
      (the (prepare_payload (table_collab [(''do it'', ''<command>ls</command>'')])
        ''action'' ''do it'')) = Some ''<command>ls</command>''"
    by code_simp
  have p3: "parse_suggested_command ''<command>ls</command>'' = Some ''ls''" by code_simp
  have p4: "parse_llm_summary ''<command>ls</command>'' = []" by code_simp
  have p5: "str_nat (0 + 1) = ''1''" by code_simp
  have p6: "digit_char (Suc 0) = CHR ''1''" by code_simp
  note t = declined_confirmation_continues [OF a b c d,
      of initial_state "table_collab [(''do it'', ''<command>ls</command>'')]" "''do it''"
         "''<command>ls</command>''" 0 0 "[]"]
  from t have h: "handle_command_suggestion normal_env ''ls'' initial_state =
     (IN_PROGRESS,
      initial_state\<lparr>last_action_taken := ''Command '' @ sq @ ''ls'' @ sq @ '' cancelled by user'',
            last_action_result := ''User cancelled at confirmation''\<rparr>,
      None)"
    by (elim conjE)
  have prem: "\<not> falsy (prepare_payload (table_collab [(''do it'', ''<command>ls</command>'')])
        ''action'' ''do it'') \<and>
      send_request (table_collab [(''do it'', ''<command>ls</command>'')])
        (the (prepare_payload (table_collab [(''do it'', ''<command>ls</command>'')])
          ''action'' ''do it'')) = Some ''<command>ls</command>'' \<and>
      ''<command>ls</command>'' \<noteq> [] \<and>
      parse_suggested_command ''<command>ls</command>'' = Some ''ls'' \<and>
      ''ls'' \<noteq> []"
    using p1 p2 p3 by (intro conjI) simp_all
  note l0 = t [THEN conjunct2, THEN mp, OF prem]
  from l0 have l: "action_loop (table_collab [(''do it'', ''<command>ls</command>'')]) normal_env 1 0
       ''do it'' initial_state [] =
     (Some IN_PROGRESS,
      initial_state\<lparr>last_action_taken := ''Command '' @ sq @ ''ls'' @ sq @ '' cancelled by user'',
            last_action_result := ''User cancelled at confirmation''\<rparr>,
      None,
      [(''Actor Input (Attempt 1): do it'', ''<command>ls</command>'')])"
    by (simp add: p4 p5 p6 initial_state_def del: action_loop.simps)
  from a b c d h p3 l show ?thesis by (intro conjI)
qed


text \<open>
  Claim C4. For every task state (whatever its iteration count), every message and every
  original prompt: \<open>CONTINUE_PLAN\<close> adds exactly 1 to \<open>step_index\<close> and gives the status
  \<open>IN_PROGRESS\<close>; \<open>TASK_COMPLETE\<close> gives \<open>COMPLETED\<close>; \<open>TASK_FAILED\<close> gives \<open>FAILED\<close>;
  and every decision type other than the six the routing knows gives \<open>FAILED\<close>.
\<close>

theorem decision_routing:
  "fst (process_evaluation_decision dlg ''CONTINUE_PLAN'' message state original_prompt)
     = IN_PROGRESS \<and>
   step_index (snd (snd (process_evaluation_decision dlg ''CONTINUE_PLAN'' message state
     original_prompt))) = step_index state + 1 \<and>
   fst (process_evaluation_decision dlg ''TASK_COMPLETE'' message state original_prompt)
     = COMPLETED \<and>
   fst (process_evaluation_decision dlg ''TASK_FAILED'' message state original_prompt)
     = FAILED \<and>
   (decision_type \<notin> {''TASK_COMPLETE'', ''TASK_FAILED'', ''CONTINUE_PLAN'', ''REVISE_PLAN'',
                       ''CLARIFY_USER'', ''VERIFY_ACTION''} \<longrightarrow>
    fst (process_evaluation_decision dlg decision_type message state original_prompt)
      = FAILED)"
  by (simp add: process_evaluation_decision_def Let_def)

theorem decision_routing_witness:
  "extract_decision_type_and_message ''FROBNICATE: do a thing'' =
     (''FROBNICATE'', ''do a thing'') \<and>
   ''FROBNICATE'' \<notin> {''TASK_COMPLETE'', ''TASK_FAILED'', ''CONTINUE_PLAN'', ''REVISE_PLAN'',
                       ''CLARIFY_USER'', ''VERIFY_ACTION''} \<and>
   fst (process_evaluation_decision asking ''FROBNICATE'' ''do a thing'' initial_state
          ''task'') = FAILED \<and>
   step_index (snd (snd (process_evaluation_decision asking ''CONTINUE_PLAN'' ''go on''
     (initial_state\<lparr>step_index := 4, iteration := 9\<rparr>) ''task''))) = 5 \<and>
   fst (execute_evaluation_phase
          (table_collab [(''judge'', ''<decision>FROBNICATE: do a thing</decision>'')])
          asking 1 ''judge'' initial_state ''task'' []) = Some FAILED"
proof -
  have x: "extract_decision_type_and_message ''FROBNICATE: do a thing'' =
     (''FROBNICATE'', ''do a thing'')" by code_simp
  have n: "''FROBNICATE'' \<notin> {''TASK_COMPLETE'', ''TASK_FAILED'', ''CONTINUE_PLAN'',
      ''REVISE_PLAN'', ''CLARIFY_USER'', ''VERIFY_ACTION''}" by simp
  have p: "fst (execute_evaluation_phase
          (table_collab [(''judge'', ''<decision>FROBNICATE: do a thing</decision>'')])
          asking 1 ''judge'' initial_state ''task'' []) = Some FAILED" by code_simp
  from decision_routing [of asking "''do a thing''" initial_state "''task''" "''FROBNICATE''"] n
  have f: "fst (process_evaluation_decision asking ''FROBNICATE'' ''do a thing'' initial_state
          ''task'') = FAILED" by blast
  from decision_routing [of asking "''go on''" "initial_state\<lparr>step_index := 4, iteration := 9\<rparr>"
      "''task''" "''FROBNICATE''"]
  have s: "step_index (snd (snd (process_evaluation_decision asking ''CONTINUE_PLAN'' ''go on''
     (initial_state\<lparr>step_index := 4, iteration := 9\<rparr>) ''task''))) = 5" by simp
  from x n p f s show ?thesis by blast
qed

lemma startswith_append: "startswith p (p @ s)"
  by (induction p) simp_all

lemma contains_prefix: "contains p (p @ s)"
proof (cases "p @ s")
  case Nil
  then show ?thesis by simp
next
  case (Cons ch cs)
  have "startswith p (ch # cs)" using startswith_append [of p s] Cons by simp
  then show ?thesis using Cons by simp
qed

lemma contains_infix: "contains p (pre @ p @ post)"
proof (induction pre)
  case Nil
  show ?case using contains_prefix [of p post] by simp
next
  case (Cons ch pre)
  then show ?case by simp
qed

lemma startswith_extend: "startswith p s \<Longrightarrow> startswith p (s @ post)"
proof (induction p arbitrary: s)
  case Nil
  then show ?case by simp
next
  case (Cons a p)
  then show ?case by (cases s) auto
qed

lemma contains_extend: "contains p e \<Longrightarrow> contains p (e @ post)"
proof (induction e)
  case Nil
  then have "p = []" by simp
  then show ?case by (simp add: contains_empty)
next
  case (Cons ch e)
  from Cons.prems have "startswith p (ch # e) \<or> contains p e" by simp
  then show ?case
  proof
    assume "startswith p (ch # e)"
    then have "startswith p ((ch # e) @ post)" by (rule startswith_extend)
    then show ?thesis by simp
  next
    assume "contains p e"
    then have "contains p (e @ post)" by (rule Cons.IH)
    then show ?thesis by simp
  qed
qed

lemma contains_trans_infix:
  "contains p e \<Longrightarrow> contains p (pre @ e @ post)"
proof (induction pre)
  case Nil
  then show ?case by (simp add: contains_extend)
next
  case (Cons ch pre)
  then show ?case by simp
qed

lemma correction_request_names:
  "contains p e \<Longrightarrow> contains p (correction_request e context)"
proof -
  assume a: "contains p e"
  have "correction_request e context =
      (join nl
         [''<correction_request>'',
          ''<error>'',
          ''<type>Invalid Response Format</type>'',
          ''<message>Your previous response was malformed and did not follow the required structure.</message>'',
          ''<details>'']) @ e @
      (''</details>'' @ nl @ join nl
         [''</error>'',
          ''<instruction>'',
          ''You MUST correct your output. Your response MUST contain BOTH a `<checklist>...</checklist>` block AND an `<instruction>...</instruction>` block. This is not optional. Failure to comply will result in task termination.'',
          ''</instruction>'',
          ''<original_context>'',
          context,
          ''</original_context>'',
          ''</correction_request>''])"
    by (simp add: correction_request_def)
  then show ?thesis using contains_trans_infix [OF a] by (simp only:)
qed

lemma tag_in_message:
  "contains ''`<instruction>...</instruction>`'' missing_instruction_message"
  by code_simp

lemma plan_error_names:
  assumes "current_instruction state = []" and "contains p missing_instruction_message"
  shows "contains p (plan_error_message state)"
proof (cases "current_plan state = []")
  case True
  have "plan_error_message state =
      (missing_checklist_message @ '' '') @ missing_instruction_message @ []"
    using assms(1) True by (simp add: plan_error_message_def)
  then show ?thesis using contains_trans_infix [OF assms(2)] by (simp only:)
next
  case False
  have "plan_error_message state = [] @ missing_instruction_message @ []"
    using assms(1) False by (simp add: plan_error_message_def)
  then show ?thesis using contains_trans_infix [OF assms(2)] by (simp only:)
qed

text \<open>
  Claim C10, as stated, fails. A response with a \<open><checklist>\<close> block and no
  \<open><instruction>\<close> block whose decision asks for clarification is not rejected: with
  clarifying questions allowed (the default) the planner puts the question to the user
  and the phase returns \<open>IN_PROGRESS\<close> after one model call, whatever fuel is left.
\<close>

theorem clarify_response_ends_plan_phase:
  "search_tag ''checklist'' clarify_response = Some ''1. deploy'' \<and>
   search_tag ''instruction'' clarify_response = None \<and>
   execute_plan_phase (table_collab [(''build it'', clarify_response)]) asking 5 ''build it''
     initial_state [] =
     (Some IN_PROGRESS,
      initial_state\<lparr>user_clarification := ''the staging server'',
                    last_eval_decision := ''PLANNER_CLARIFY''\<rparr>,
      [(''Planner Input (Attempt 2): build it'', clarify_response)])"
  by code_simp

text \<open>
  Claim C10, amended. In the plan phase, for every model response that contains a
  \<open><checklist>\<close> block but no \<open><instruction>\<close> block, and whose decision does not start
  with \<open>CLARIFY_USER:\<close>: the response is rejected, and the loop goes on to its next
  pass, with the attempt counter one higher (2 after the first call), with the
  extracted fields stored in the state, and with the correction request as input
  context, which names the missing \<open><instruction>\<close> tag; the phase does not return on
  this violation (with fuel for one pass only, it is still retrying). The label that
  the log gives a call is the attempt counter plus one, as the source writes it.
  A response whose decision starts with \<open>CLARIFY_USER:\<close> is dealt with before the tags
  are looked at: when clarifying questions are allowed the user's line is stored, the
  plan is cleared and the phase returns \<open>IN_PROGRESS\<close>; when they are not, the loop goes
  on to its next pass with the state unchanged and a context that says clarification
  is disabled.
\<close>

theorem missing_instruction_retries:
  assumes "\<not> falsy (prepare_payload c ''plan'' context)"
    and "send_request c (the (prepare_payload c ''plan'' context)) = Some response"
    and "response \<noteq> []"
  shows "(search_tag ''checklist'' response \<noteq> None \<and>
       search_tag ''instruction'' response = None \<and>
       \<not> startswith ''CLARIFY_USER:'' (parse_llm_decision response) \<longrightarrow>
       plan_loop c dlg (Suc fuel) attempt context state log =
         plan_loop c dlg fuel (attempt + 1)
           (correction_request
              (plan_error_message
                 (state\<lparr>current_plan := parse_llm_plan response,
                        current_instruction := '''',
                        planner_summary := parse_llm_summary response,
                        definition_of_done := parse_definition_of_done response\<rparr>))
              context)
           (state\<lparr>current_plan := parse_llm_plan response,
                  current_instruction := '''',
                  planner_summary := parse_llm_summary response,
                  definition_of_done := parse_definition_of_done response\<rparr>)
           (log @ [(''Planner Input (Attempt '' @ str_nat (attempt + 1 + 1) @ ''): '' @ context,
                    response)]) \<and>
       contains ''`<instruction>...</instruction>`''
         (correction_request
            (plan_error_message
               (state\<lparr>current_plan := parse_llm_plan response,
                      current_instruction := '''',
                      planner_summary := parse_llm_summary response,
                      definition_of_done := parse_definition_of_done response\<rparr>))
            context) \<and>
       fst (execute_plan_phase c dlg 1 context state log) = None) \<and>
     (startswith ''CLARIFY_USER:'' (parse_llm_decision response) \<and>
       allow_clarifying_questions dlg \<longrightarrow>
       plan_loop c dlg (Suc fuel) attempt context state log =
         (Some IN_PROGRESS,
          state\<lparr>user_clarification := typed_line dlg,
                last_eval_decision := ''PLANNER_CLARIFY'',
                current_plan := ''''\<rparr>,
          log @ [(''Planner Input (Attempt '' @ str_nat (attempt + 1 + 1) @ ''): '' @ context,
                  response)])) \<and>
     (startswith ''CLARIFY_USER:'' (parse_llm_decision response) \<and>
       \<not> allow_clarifying_questions dlg \<longrightarrow>
       plan_loop c dlg (Suc fuel) attempt context state log =
         plan_loop c dlg fuel (attempt + 1)
           (context @ nl @ nl @
            ''PREVIOUS ATTEMPT FAILED. Your last response requested user clarification, which is disabled. Please generate a plan without asking questions.'')
           state
           (log @ [(''Planner Input (Attempt '' @ str_nat (attempt + 1 + 1) @ ''): '' @ context,
                    response)]))"
proof -
  let ?state1 = "state\<lparr>current_plan := parse_llm_plan response,
                current_instruction := '''',
                planner_summary := parse_llm_summary response,
                definition_of_done := parse_definition_of_done response\<rparr>"
  let ?log1 = "log @ [(''Planner Input (Attempt '' @ str_nat (attempt + 1 + 1) @ ''): '' @
      context, response)]"
  have nf: "\<not> falsy (send_request c (the (prepare_payload c ''plan'' context)))"
    using assms(2,3) by (simp add: falsy_def)
  have first: "search_tag ''checklist'' response \<noteq> None \<and>
       search_tag ''instruction'' response = None \<and>
       \<not> startswith ''CLARIFY_USER:'' (parse_llm_decision response) \<longrightarrow>
       plan_loop c dlg (Suc fuel) attempt context state log =
         plan_loop c dlg fuel (attempt + 1)
           (correction_request (plan_error_message ?state1) context) ?state1 ?log1 \<and>
       contains ''`<instruction>...</instruction>`''
         (correction_request (plan_error_message ?state1) context) \<and>
       fst (execute_plan_phase c dlg 1 context state log) = None"
  proof (intro impI, elim conjE)
    assume noins: "search_tag ''instruction'' response = None"
      and nocl: "\<not> startswith ''CLARIFY_USER:'' (parse_llm_decision response)"
    have ins: "parse_llm_instruction response = ''''"
      using noins by (simp add: parse_llm_instruction_def get_or_def)
    have step: "\<And>fuel attempt. plan_loop c dlg (Suc fuel) attempt context state log =
         plan_loop c dlg fuel (attempt + 1)
           (correction_request (plan_error_message ?state1) context) ?state1
           (log @ [(''Planner Input (Attempt '' @ str_nat (attempt + 1 + 1) @ ''): '' @
              context, response)])"
      using assms(1,2) nocl nf ins by (simp add: Let_def)
    have "contains ''`<instruction>...</instruction>`'' (plan_error_message ?state1)"
      using tag_in_message by (intro plan_error_names) simp_all
    then have names: "contains ''`<instruction>...</instruction>`''
        (correction_request (plan_error_message ?state1) context)"
      by (rule correction_request_names)
    have "plan_loop c dlg (Suc 0) 0 context state log =
         plan_loop c dlg 0 (0 + 1)
           (correction_request (plan_error_message ?state1) context) ?state1
           (log @ [(''Planner Input (Attempt '' @ str_nat (0 + 1 + 1) @ ''): '' @ context,
                    response)])"
      by (rule step)
    then have pending: "fst (execute_plan_phase c dlg 1 context state log) = None"
      by (simp add: execute_plan_phase_def)
    from step [of fuel attempt] names pending
    show "plan_loop c dlg (Suc fuel) attempt context state log =
         plan_loop c dlg fuel (attempt + 1)
           (correction_request (plan_error_message ?state1) context) ?state1 ?log1 \<and>
       contains ''`<instruction>...</instruction>`''
         (correction_request (plan_error_message ?state1) context) \<and>
       fst (execute_plan_phase c dlg 1 context state log) = None"
      by blast
  qed
  have asked: "startswith ''CLARIFY_USER:'' (parse_llm_decision response) \<and>
       allow_clarifying_questions dlg \<longrightarrow>
       plan_loop c dlg (Suc fuel) attempt context state log =
         (Some IN_PROGRESS,
          state\<lparr>user_clarification := typed_line dlg,
                last_eval_decision := ''PLANNER_CLARIFY'',
                current_plan := ''''\<rparr>,
          ?log1)"
    using assms(1,2) nf by (simp add: Let_def)
  have refused: "startswith ''CLARIFY_USER:'' (parse_llm_decision response) \<and>
       \<not> allow_clarifying_questions dlg \<longrightarrow>
       plan_loop c dlg (Suc fuel) attempt context state log =
         plan_loop c dlg fuel (attempt + 1)
           (context @ nl @ nl @
            ''PREVIOUS ATTEMPT FAILED. Your last response requested user clarification, which is disabled. Please generate a plan without asking questions.'')
           state ?log1"
    using assms(1,2) nf by (simp add: Let_def clarification_disabled_context_def)
  from first asked refused show ?thesis by (intro conjI)
qed

theorem missing_instruction_retries_witness:
  "\<not> falsy (prepare_payload retry_collab ''plan'' ''build it'') \<and>
   send_request retry_collab (the (prepare_payload retry_collab ''plan'' ''build it'')) =
     Some checklist_only_response \<and>
   search_tag ''checklist'' checklist_only_response = Some ''1. build'' \<and>
   search_tag ''instruction'' checklist_only_response = None \<and>
   \<not> startswith ''CLARIFY_USER:'' (parse_llm_decision checklist_only_response) \<and>
   fst (execute_plan_phase retry_collab asking 1 ''build it'' initial_state []) = None \<and>
   plan_loop retry_collab asking 2 0 ''build it'' initial_state [] =
     (Some IN_PROGRESS,
      initial_state\<lparr>current_plan := ''1. build'', current_instruction := ''run make'',
                    plan_array := [''1. build'']\<rparr>,
      [(''Planner Input (Attempt 2): build it'', checklist_only_response),
       (''Planner Input (Attempt 3): '' @
          correction_request missing_instruction_message ''build it'', full_plan_response)]) \<and>
   startswith ''CLARIFY_USER:'' (parse_llm_decision clarify_response) \<and>
   plan_loop firm_collab asking 1 0 ''build it'' initial_state [] =
     (Some IN_PROGRESS,
      initial_state\<lparr>user_clarification := ''the staging server'',
                    last_eval_decision := ''PLANNER_CLARIFY''\<rparr>,
      [(''Planner Input (Attempt 2): build it'', clarify_response)]) \<and>
   plan_loop firm_collab silent 2 0 ''build it'' initial_state [] =
     (Some IN_PROGRESS,
      initial_state\<lparr>current_plan := ''1. build'', current_instruction := ''run make'',
                    plan_array := [''1. build'']\<rparr>,
      [(''Planner Input (Attempt 2): build it'', clarify_response),
       (''Planner Input (Attempt 3): '' @ clarification_disabled_context ''build it'',
        full_plan_response)])"
proof -
  have h1: "\<not> falsy (prepare_payload retry_collab ''plan'' ''build it'')" by code_simp
  have h2: "send_request retry_collab (the (prepare_payload retry_collab ''plan'' ''build it'')) =
     Some checklist_only_response" by code_simp
  have h3: "checklist_only_response \<noteq> []" by code_simp
  have h4: "search_tag ''checklist'' checklist_only_response = Some ''1. build''" by code_simp
  then have h4': "search_tag ''checklist'' checklist_only_response \<noteq> None" by simp
  have h5: "search_tag ''instruction'' checklist_only_response = None" by code_simp
  have h6: "\<not> startswith ''CLARIFY_USER:'' (parse_llm_decision checklist_only_response)"
    by code_simp
  note t = missing_instruction_retries [OF h1 h2 h3, of asking 1 0 initial_state "[]",
      THEN conjunct1, THEN mp, OF conjI [OF h4' conjI [OF h5 h6]]]
  have second: "plan_loop retry_collab asking 1 (0 + 1)
         (correction_request
            (plan_error_message
               (initial_state\<lparr>current_plan := parse_llm_plan checklist_only_response,
                      current_instruction := [],
                      planner_summary := parse_llm_summary checklist_only_response,
                      definition_of_done := parse_definition_of_done checklist_only_response\<rparr>))
            ''build it'')
         (initial_state\<lparr>current_plan := parse_llm_plan checklist_only_response,
                current_instruction := [],
                planner_summary := parse_llm_summary checklist_only_response,
                definition_of_done := parse_definition_of_done checklist_only_response\<rparr>)
         ([] @ [(''Planner Input (Attempt '' @ str_nat (0 + 1 + 1) @ ''): '' @ ''build it'',
                  checklist_only_response)]) =
     (Some IN_PROGRESS,
      initial_state\<lparr>current_plan := ''1. build'', current_instruction := ''run make'',
                    plan_array := [''1. build'']\<rparr>,
      [(''Planner Input (Attempt 2): build it'', checklist_only_response),
       (''Planner Input (Attempt 3): '' @
          correction_request missing_instruction_message ''build it'', full_plan_response)])"
    by code_simp
  have two: "Suc 1 = 2" by simp
  from t have eqA: "plan_loop retry_collab asking (Suc 1) 0 ''build it'' initial_state [] =
      plan_loop retry_collab asking 1 (0 + 1)
         (correction_request
            (plan_error_message
               (initial_state\<lparr>current_plan := parse_llm_plan checklist_only_response,
                      current_instruction := [],
                      planner_summary := parse_llm_summary checklist_only_response,
                      definition_of_done := parse_definition_of_done checklist_only_response\<rparr>))
            ''build it'')
         (initial_state\<lparr>current_plan := parse_llm_plan checklist_only_response,
                current_instruction := [],
                planner_summary := parse_llm_summary checklist_only_response,
                definition_of_done := parse_definition_of_done checklist_only_response\<rparr>)
         ([] @ [(''Planner Input (Attempt '' @ str_nat (0 + 1 + 1) @ ''): '' @ ''build it'',
                  checklist_only_response)])"
    by (elim conjE)
  from eqA second have loop: "plan_loop retry_collab asking 2 0 ''build it'' initial_state [] =
     (Some IN_PROGRESS,
      initial_state\<lparr>current_plan := ''1. build'', current_instruction := ''run make'',
                    plan_array := [''1. build'']\<rparr>,
      [(''Planner Input (Attempt 2): build it'', checklist_only_response),
       (''Planner Input (Attempt 3): '' @
          correction_request missing_instruction_message ''build it'', full_plan_response)])"
    by (simp only: two)
  from t have pending: "fst (execute_plan_phase retry_collab asking 1 ''build it'' initial_state [])
      = None" by (elim conjE)
  have g1: "\<not> falsy (prepare_payload firm_collab ''plan'' ''build it'')" by code_simp
  have g2: "send_request firm_collab (the (prepare_payload firm_collab ''plan'' ''build it'')) =
     Some clarify_response" by code_simp
  have g3: "clarify_response \<noteq> []" by code_simp
  have g4: "startswith ''CLARIFY_USER:'' (parse_llm_decision clarify_response)" by code_simp
  have a1: "allow_clarifying_questions asking" by code_simp
  have s1: "\<not> allow_clarifying_questions silent" by code_simp
  note tB = missing_instruction_retries [OF g1 g2 g3, of asking 0 0 initial_state "[]",
      THEN conjunct2, THEN conjunct1, THEN mp, OF conjI [OF g4 a1]]
  note tC = missing_instruction_retries [OF g1 g2 g3, of silent 1 0 initial_state "[]",
      THEN conjunct2, THEN conjunct2, THEN mp, OF conjI [OF g4 s1]]
  have one: "Suc 0 = 1" by simp
  have rhsB: "(Some IN_PROGRESS,
          initial_state\<lparr>user_clarification := typed_line asking,
                last_eval_decision := ''PLANNER_CLARIFY'',
                current_plan := []\<rparr>,
          [] @ [(''Planner Input (Attempt '' @ str_nat (0 + 1 + 1) @ ''): '' @ ''build it'',
                  clarify_response)]) =
     (Some IN_PROGRESS,
      initial_state\<lparr>user_clarification := ''the staging server'',
                    last_eval_decision := ''PLANNER_CLARIFY''\<rparr>,
      [(''Planner Input (Attempt 2): build it'', clarify_response)])"
    by code_simp
  from tB rhsB have asked: "plan_loop firm_collab asking 1 0 ''build it'' initial_state [] =
     (Some IN_PROGRESS,
      initial_state\<lparr>user_clarification := ''the staging server'',
                    last_eval_decision := ''PLANNER_CLARIFY''\<rparr>,
      [(''Planner Input (Attempt 2): build it'', clarify_response)])"
    by (simp only: one)
  have secondC: "plan_loop firm_collab silent 1 (0 + 1)
       (''build it'' @ nl @ nl @
        ''PREVIOUS ATTEMPT FAILED. Your last response requested user clarification, which is disabled. Please generate a plan without asking questions.'')
       initial_state
       ([] @ [(''Planner Input (Attempt '' @ str_nat (0 + 1 + 1) @ ''): '' @ ''build it'',
                clarify_response)]) =
     (Some IN_PROGRESS,
      initial_state\<lparr>current_plan := ''1. build'', current_instruction := ''run make'',
                    plan_array := [''1. build'']\<rparr>,
      [(''Planner Input (Attempt 2): build it'', clarify_response),
       (''Planner Input (Attempt 3): '' @ clarification_disabled_context ''build it'',
        full_plan_response)])"
    by code_simp
  from tC secondC have refused: "plan_loop firm_collab silent 2 0 ''build it'' initial_state [] =
     (Some IN_PROGRESS,
      initial_state\<lparr>current_plan := ''1. build'', current_instruction := ''run make'',
                    plan_array := [''1. build'']\<rparr>,
      [(''Planner Input (Attempt 2): build it'', clarify_response),
       (''Planner Input (Attempt 3): '' @ clarification_disabled_context ''build it'',
        full_plan_response)])"
    by (simp only: two)
  from h1 h2 h4 h5 h6 pending loop g4 asked refused show ?thesis by (intro conjI)
qed


end
